theory Spec2Isabelle
  imports Complex_Main "HOL-Library.Word" "HOL-Library.Signed_Division"
begin

section \<open>Data model of package readwisereader\<close>

text \<open>
  Go's \<open>int\<close> and \<open>int64\<close> are 64-bit two's complement words (a 64-bit platform is
  assumed for \<open>int\<close>); \<open>sint\<close> reads their value. A \<open>float64\<close> that holds a finite
  number is represented by the real number it denotes.
\<close>

type_synonym go_int = "64 word"
type_synonym int64 = "64 word"
type_synonym float64 = real

text \<open>
  \<open>time.Duration\<close> is an \<open>int64\<close> count of nanoseconds; \<open>time.Second\<close> is the
  constant \<open>1000000000\<close>.
\<close>

type_synonym Duration = "64 word"

definition Second :: Duration where
  "Second = 1000000000"

text \<open>
  \<open>time.Time\<close>: an instant as the seconds elapsed since January 1 of year 1, 00:00:00 UTC
  (the library's internal epoch), the nanoseconds within that second, and the location
  the instant is presented in. Go's zero value \<open>time.Time{}\<close> is second 0, nanosecond 0
  of that epoch, in UTC.
\<close>

datatype time_Location = UTC | Local

record Time =
  sec :: int
  nsec :: int
  loc :: time_Location

definition zero_Time :: Time where
  "zero_Time = \<lparr> sec = 0, nsec = 0, loc = UTC \<rparr>"

definition IsZero :: "Time \<Rightarrow> bool" where
  "IsZero t = (sec t = 0 \<and> nsec t = 0)"

text \<open>
  The value \<open>json.Unmarshal\<close> stores into an \<open>interface{}\<close>: \<open>nil\<close>, \<open>bool\<close>,
  \<open>float64\<close>, \<open>string\<close>, \<open>[]interface{}\<close> or \<open>map[string]interface{}\<close>.
\<close>

datatype jvalue =
    JNull
  | JBool bool
  | JNumber float64
  | JString string
  | JArray "jvalue list"
  | JObject "(string \<times> jvalue) list"

type_synonym Location = string
type_synonym Category = string
type_synonym dateValue = Time

text \<open>The wire format \<open>document\<close> and the public \<open>Document\<close>.\<close>

record document =
  ID :: string
  URL :: string
  SourceURL :: string
  Title :: string
  Author :: string
  Source :: string
  Category :: Category
  Location :: Location
  Tags :: "(string \<times> jvalue) list"
  SiteName :: string
  WordCount :: go_int
  CreatedAt :: Time
  UpdatedAt :: Time
  Notes :: string
  PublishedDate :: dateValue
  Summary :: string
  ImageURL :: string
  ParentID :: string
  ReadingProgress :: float64
  FirstOpenedAt :: Time
  LastOpenedAt :: Time
  SavedAt :: Time
  LastMovedAt :: Time

record Document =
  ID :: string
  URL :: string
  SourceURL :: string
  Title :: string
  Author :: string
  Source :: string
  Category :: Category
  Location :: Location
  Tags :: "(string \<times> jvalue) list"
  SiteName :: string
  WordCount :: go_int
  CreatedAt :: Time
  UpdatedAt :: Time
  Notes :: string
  PublishedDate :: Time
  Summary :: string
  ImageURL :: string
  ParentID :: string
  ReadingProgress :: float64
  FirstOpenedAt :: Time
  LastOpenedAt :: Time
  SavedAt :: Time
  LastMovedAt :: Time

record listResponse =
  Count :: go_int
  NextPageCursor :: string
  Results :: "document list"

record Page =
  Count :: go_int
  Results :: "Document list"

text \<open>\<open>ListResponse\<close> embeds \<open>Page\<close>; the embedded struct is the field \<open>Page\<close>.\<close>

record ListResponse =
  NextPageCursor :: string
  Page :: Page

text \<open>\<open>Page{}\<close>, the zero value the iterator yields beside an error.\<close>

definition empty_Page :: Page where
  "empty_Page = \<lparr> Page.Count = 0, Page.Results = [] \<rparr>"

section \<open>Conversion of the wire format\<close>

definition toDocument :: "document \<Rightarrow> Document" where
  "toDocument dr =
     \<lparr> Document.ID = document.ID dr,
       Document.URL = document.URL dr,
       Document.SourceURL = document.SourceURL dr,
       Document.Title = document.Title dr,
       Document.Author = document.Author dr,
       Document.Source = document.Source dr,
       Document.Category = document.Category dr,
       Document.Location = document.Location dr,
       Document.Tags = document.Tags dr,
       Document.SiteName = document.SiteName dr,
       Document.WordCount = document.WordCount dr,
       Document.CreatedAt = document.CreatedAt dr,
       Document.UpdatedAt = document.UpdatedAt dr,
       Document.Notes = document.Notes dr,
       Document.PublishedDate = document.PublishedDate dr,
       Document.Summary = document.Summary dr,
       Document.ImageURL = document.ImageURL dr,
       Document.ParentID = document.ParentID dr,
       Document.ReadingProgress = document.ReadingProgress dr,
       Document.FirstOpenedAt = document.FirstOpenedAt dr,
       Document.LastOpenedAt = document.LastOpenedAt dr,
       Document.SavedAt = document.SavedAt dr,
       Document.LastMovedAt = document.LastMovedAt dr \<rparr>"

text \<open>
  The loop of \<open>toListResponse\<close>: \<open>results\<close> starts empty and every wire document, in
  order, has its conversion appended.
\<close>

fun append_results :: "Document list \<Rightarrow> document list \<Rightarrow> Document list" where
  "append_results results [] = results"
| "append_results results (dr # drs) = append_results (results @ [toDocument dr]) drs"

definition toListResponse :: "listResponse \<Rightarrow> ListResponse" where
  "toListResponse lr =
     (let results = append_results [] (listResponse.Results lr)
      in \<lparr> ListResponse.NextPageCursor = listResponse.NextPageCursor lr,
           ListResponse.Page =
             \<lparr> Page.Count = listResponse.Count lr, Page.Results = results \<rparr> \<rparr>)"

section \<open>Errors\<close>

text \<open>
  The error values that reach this package.
  \<^item> \<open>ErrorRateLimited d\<close>: \<open>&ErrorRateLimited{RetryAfter: d}\<close>.
  \<^item> \<open>NumError s\<close>: the \<open>*strconv.NumError\<close> of \<open>strconv.Atoi(s)\<close> (a syntax or a range
    error; the two are not told apart here).
  \<^item> \<open>InvalidRetryAfter h e\<close>:
    \<open>fmt.Errorf("invalid retry-after header: %v: %w", h, e)\<close>, which wraps \<open>e\<close>.
  \<^item> \<open>UnexpectedStatus n\<close>: \<open>fmt.Errorf("unexpected status code: %d", n)\<close>.
  \<^item> \<open>ParseError s\<close>: the \<open>*time.ParseError\<close> of \<open>time.Parse\<close> on the value \<open>s\<close>.
  \<^item> \<open>InvalidTimeValueType v\<close>: \<open>fmt.Errorf("invalid time value type: %T", v)\<close>.
  \<^item> \<open>Canceled\<close>, \<open>DeadlineExceeded\<close>: the two values of \<open>ctx.Err()\<close>.
  \<^item> \<open>Wrapped m e\<close>: \<open>fmt.Errorf(m + ": %w", e)\<close>, as \<open>list\<close> wraps the errors of the
    HTTP client (\<open>"do"\<close>, \<open>"readall"\<close>).
  \<^item> \<open>Opaque m\<close>: any other error of a library below (network, JSON syntax).
\<close>

datatype error =
    ErrorRateLimited Duration
  | NumError string
  | InvalidRetryAfter string error
  | UnexpectedStatus go_int
  | ParseError string
  | InvalidTimeValueType jvalue
  | Canceled
  | DeadlineExceeded
  | Wrapped string error
  | Opaque string

text \<open>
  \<open>errors.As(err, &rle)\<close> with \<open>rle\<close> of type \<open>*ErrorRateLimited\<close>: the first error of
  that type on the chain of wrapped errors, if there is one.
\<close>

fun as_ErrorRateLimited :: "error \<Rightarrow> Duration option" where
  "as_ErrorRateLimited (ErrorRateLimited d) = Some d"
| "as_ErrorRateLimited (InvalidRetryAfter h e) = as_ErrorRateLimited e"
| "as_ErrorRateLimited (Wrapped m e) = as_ErrorRateLimited e"
| "as_ErrorRateLimited (NumError s) = None"
| "as_ErrorRateLimited (UnexpectedStatus n) = None"
| "as_ErrorRateLimited (ParseError s) = None"
| "as_ErrorRateLimited (InvalidTimeValueType v) = None"
| "as_ErrorRateLimited Canceled = None"
| "as_ErrorRateLimited DeadlineExceeded = None"
| "as_ErrorRateLimited (Opaque m) = None"

section \<open>strconv.Atoi\<close>

text \<open>
  Go's \<open>strconv.Atoi\<close> for a 64-bit \<open>int\<close>: an optional sign, then one or more decimal
  digits and nothing else; the number must fit into 64 bits.
\<close>

definition isdigit :: "char \<Rightarrow> bool" where
  "isdigit c = (48 \<le> (of_char c :: int) \<and> (of_char c :: int) \<le> 57)"

definition digit_value :: "char \<Rightarrow> int" where
  "digit_value c = of_char c - 48"

fun decimal :: "int \<Rightarrow> string \<Rightarrow> int option" where
  "decimal n [] = Some n"
| "decimal n (c # cs) = (if isdigit c then decimal (n * 10 + digit_value c) cs else None)"

definition Atoi :: "string \<Rightarrow> error + go_int" where
  "Atoi s =
     (let (neg, digits) =
            (case s of
               [] \<Rightarrow> (False, s)
             | c # cs \<Rightarrow>
                 if c = CHR ''-'' then (True, cs)
                 else if c = CHR ''+'' then (False, cs)
                 else (False, s))
      in if digits = [] then Inl (NumError s)
         else case decimal 0 digits of
                None \<Rightarrow> Inl (NumError s)
              | Some n \<Rightarrow>
                  if neg then (if 2 ^ 63 < n then Inl (NumError s) else Inr (word_of_int (- n)))
                  else (if 2 ^ 63 \<le> n then Inl (NumError s) else Inr (word_of_int n)))"

section \<open>The single-page fetcher\<close>

text \<open>
  What \<open>Client.list\<close> hands back once the body is buffered: the status code, the headers
  and the body. \<open>Header_Get\<close> is \<open>resp.Header.Get\<close>: the first value stored under the key,
  or the empty string.
\<close>

record Response =
  StatusCode :: go_int
  Header :: "(string \<times> string list) list"
  Body :: string

definition Header_Get :: "(string \<times> string list) list \<Rightarrow> string \<Rightarrow> string" where
  "Header_Get h key = (case map_of h key of Some (v # vs) \<Rightarrow> v | _ \<Rightarrow> [])"

text \<open>
  \<open>Client.List\<close>, after the call of \<open>c.list\<close>: \<open>r\<close> is what that call returned (an error
  or a response). \<open>json_Decode\<close> stands for \<open>json.NewDecoder(resp.Body).Decode(&lr)\<close>, the
  decoder of the standard library, from the body to the wire format or an error.
\<close>

definition Client_List ::
    "(string \<Rightarrow> error + listResponse) \<Rightarrow> error + Response \<Rightarrow> error + ListResponse" where
  "Client_List json_Decode r =
     (case r of
        Inl err \<Rightarrow> Inl err
      | Inr resp \<Rightarrow>
          if StatusCode resp = 429 then
            (let retryAfter = Header_Get (Header resp) ''Retry-After''
             in case Atoi retryAfter of
                  Inl err \<Rightarrow> Inl (InvalidRetryAfter retryAfter err)
                | Inr seconds \<Rightarrow> Inl (ErrorRateLimited (seconds * Second)))
          else if StatusCode resp \<noteq> 200 then Inl (UnexpectedStatus (StatusCode resp))
          else (case json_Decode (Body resp) of
                  Inl err \<Rightarrow> Inl err
                | Inr lr \<Rightarrow> Inr (toListResponse lr)))"

section \<open>The paginated iterator\<close>

record ListParams =
  ID :: string
  UpdatedAfter :: Time
  Location :: Location
  Category :: Category
  PageCursor :: string
  WithHTMLContent :: bool

text \<open>
  One turn of the \<open>for\<close> loop meets the world four times at most; a \<open>round\<close> says what
  the world answers in that turn:
  \<^item> \<open>list_result\<close>: what \<open>c.list\<close> returns for the request of this turn;
  \<^item> \<open>ctx_Err\<close>: what \<open>ctx.Err()\<close> returns when the turn inspects a rate-limit signal
    (once it is not \<open>nil\<close> it stays the same error, so the value yielded is the value
    tested);
  \<^item> \<open>select\<close>: the case of the \<open>select\<close> statement that fires, the timer of
    \<open>time.After\<close> or \<open>ctx.Done()\<close> (with the \<open>ctx.Err()\<close> read after it);
  \<^item> \<open>yield_more\<close>: what \<open>yield\<close> returns when it is handed a page (false: the consumer
    wants no more items).
\<close>

datatype select_case = TimerFired | CtxDone error

record round =
  list_result :: "error + Response"
  ctx_Err :: "error option"
  select :: select_case
  yield_more :: bool

text \<open>
  What the iterator does, in order: the requests it issues (with their parameters), the
  waits it starts on \<open>time.After\<close>, and the items it yields.
\<close>

datatype event =
    Request ListParams
  | Wait Duration
  | Yield Page "error option"

text \<open>How a turn of the loop ends: \<open>continue\<close>/fall through with the next cursor, or \<open>return\<close>.\<close>

datatype control = Continue string | Return

definition loop_body ::
    "(string \<Rightarrow> error + listResponse) \<Rightarrow> round \<Rightarrow> ListParams \<Rightarrow> string
      \<Rightarrow> event list \<times> control" where
  "loop_body json_Decode r params cursor =
     (let params = params\<lparr>ListParams.PageCursor := cursor\<rparr>;
          res = Client_List json_Decode (list_result r);
          rle = (case res of Inl err \<Rightarrow> as_ErrorRateLimited err | Inr resp \<Rightarrow> None)
      in case rle of
           Some RetryAfter \<Rightarrow>
             (case ctx_Err r of
                Some cerr \<Rightarrow> ([Request params, Yield empty_Page (Some cerr)], Return)
              | None \<Rightarrow>
                  (case select r of
                     TimerFired \<Rightarrow> ([Request params, Wait RetryAfter], Continue cursor)
                   | CtxDone cerr \<Rightarrow>
                       ([Request params, Wait RetryAfter, Yield empty_Page (Some cerr)], Return)))
         | None \<Rightarrow>
             (case res of
                Inl err \<Rightarrow> ([Request params, Yield empty_Page (Some err)], Return)
              | Inr resp \<Rightarrow>
                  if \<not> yield_more r then ([Request params, Yield (Page resp) None], Return)
                  else if ListResponse.NextPageCursor resp = [] then
                    ([Request params, Yield (Page resp) None], Return)
                  else
                    ([Request params, Yield (Page resp) None],
                     Continue (ListResponse.NextPageCursor resp))))"

text \<open>
  The \<open>for\<close> loop against the rounds the world plays. The loop may go on for ever (a
  server that always rate-limits): when the rounds run out before the loop returns, the
  result is the events so far and \<open>Continue\<close> with the cursor of the next request.
\<close>

fun for_loop ::
    "(string \<Rightarrow> error + listResponse) \<Rightarrow> ListParams \<Rightarrow> string \<Rightarrow> round list
      \<Rightarrow> event list \<times> control" where
  "for_loop json_Decode params cursor [] = ([], Continue cursor)"
| "for_loop json_Decode params cursor (r # rs) =
     (case loop_body json_Decode r params cursor of
        (evs, Return) \<Rightarrow> (evs, Return)
      | (evs, Continue cursor') \<Rightarrow>
          (case for_loop json_Decode (params\<lparr>ListParams.PageCursor := cursor\<rparr>) cursor' rs of
             (evs', c) \<Rightarrow> (evs @ evs', c)))"

text \<open>
  \<open>Client.ListPaginate\<close>, run by a consumer: \<open>Some\<close> of the events when the iterator
  returns within the given rounds, \<open>None\<close> when it is still looping after them.
\<close>

definition Client_ListPaginate ::
    "(string \<Rightarrow> error + listResponse) \<Rightarrow> ListParams \<Rightarrow> round list \<Rightarrow> event list option" where
  "Client_ListPaginate json_Decode params rounds =
     (case for_loop json_Decode params (ListParams.PageCursor params) rounds of
        (evs, Return) \<Rightarrow> Some evs
      | (evs, Continue cursor) \<Rightarrow> None)"

text \<open>The items handed to the consumer and the requests issued, read off the events.\<close>

fun yielded :: "event list \<Rightarrow> (Page \<times> error option) list" where
  "yielded [] = []"
| "yielded (Yield p e # evs) = (p, e) # yielded evs"
| "yielded (ev # evs) = yielded evs"

fun requests :: "event list \<Rightarrow> ListParams list" where
  "requests [] = []"
| "requests (Request p # evs) = p # requests evs"
| "requests (ev # evs) = requests evs"

fun waits :: "event list \<Rightarrow> Duration list" where
  "waits [] = []"
| "waits (Wait d # evs) = d # waits evs"
| "waits (ev # evs) = waits evs"

section \<open>The published-date decoder\<close>

subsection \<open>What the decoder uses of package time\<close>

text \<open>
  The functions of Go's standard library that \<open>dateValue.UnmarshalJSON\<close> calls, written
  after the library: \<open>time.UnixMilli\<close> (through \<open>time.Unix\<close>), and \<open>time.Parse\<close> for the
  one layout the source passes, \<open>"2006-01-02"\<close>.

  \<open>unixToInternal\<close> is the number of seconds from January 1 of year 1 to January 1, 1970.
  \<open>time.Unix\<close> normalises the nanoseconds into \<open>[0, 999999999]\<close> and presents the time in
  the local zone. The arguments are \<open>int64\<close> values; the quotient and remainder are Go's,
  which truncate towards zero (\<open>sdiv\<close>, \<open>smod\<close>). For every \<open>int64\<close> argument of
  \<open>UnixMilli\<close> all intermediate values stay within 64 bits, so they are computed on
  \<open>int\<close> here.
\<close>

definition unixToInternal :: int where
  "unixToInternal = 62135596800"

definition Unix :: "int \<Rightarrow> int \<Rightarrow> Time" where
  "Unix s ns =
     (let (s, ns) =
            (if ns < 0 \<or> 1000000000 \<le> ns then
               (let n = ns sdiv 1000000000;
                    s = s + n;
                    ns = ns - n * 1000000000
                in if ns < 0 then (s - 1, ns + 1000000000) else (s, ns))
             else (s, ns))
      in \<lparr> sec = s + unixToInternal, nsec = ns, loc = Local \<rparr>)"

definition UnixMilli :: "int64 \<Rightarrow> Time" where
  "UnixMilli msec = Unix (sint msec sdiv 1000) ((sint msec smod 1000) * 1000000)"

text \<open>
  The conversion \<open>int64(value)\<close> of a \<open>float64\<close>: the fraction is discarded (truncation
  towards zero). When the truncated value does not fit into 64 bits the result depends
  on the implementation; \<open>out_of_range\<close> stands for what the platform gives then.
\<close>

definition trunc_float64 :: "float64 \<Rightarrow> int" where
  "trunc_float64 x = (if 0 \<le> x then \<lfloor>x\<rfloor> else \<lceil>x\<rceil>)"

definition int64_of_float64 :: "(float64 \<Rightarrow> int64) \<Rightarrow> float64 \<Rightarrow> int64" where
  "int64_of_float64 out_of_range x =
     (let t = trunc_float64 x
      in if - (2 ^ 63) \<le> t \<and> t < 2 ^ 63 then word_of_int t else out_of_range x)"

text \<open>
  The calendar of \<open>time.Date\<close> for a month in \<open>1..12\<close> and a day of that month, at
  midnight UTC: the days from January 1 of year 1 to the given date, times 86400.
\<close>

definition isLeap :: "int \<Rightarrow> bool" where
  "isLeap year = (year mod 4 = 0 \<and> (year mod 100 \<noteq> 0 \<or> year mod 400 = 0))"

definition daysBefore :: "int \<Rightarrow> int" where
  "daysBefore month =
     [0, 31, 59, 90, 120, 151, 181, 212, 243, 273, 304, 334, 365] ! nat (month - 1)"

definition daysIn :: "int \<Rightarrow> int \<Rightarrow> int" where
  "daysIn month year =
     (if month = 2 \<and> isLeap year then 29 else daysBefore (month + 1) - daysBefore month)"

definition daysSinceYear1 :: "int \<Rightarrow> int" where
  "daysSinceYear1 year =
     365 * (year - 1) + (year - 1) div 4 - (year - 1) div 100 + (year - 1) div 400"

definition Date :: "int \<Rightarrow> int \<Rightarrow> int \<Rightarrow> Time" where
  "Date year month day =
     (let d = daysSinceYear1 year + daysBefore month
                + (if isLeap year \<and> 3 \<le> month then 1 else 0) + (day - 1)
      in \<lparr> sec = d * 86400, nsec = 0, loc = UTC \<rparr>)"

text \<open>
  \<open>time.Parse("2006-01-02", value)\<close>, element by element as the library goes through the
  layout: a year of exactly four characters, the first a digit and all four a number;
  the literal \<open>-\<close>; a month of exactly two digits, in \<open>1..12\<close>; the literal \<open>-\<close>; a day
  of exactly two digits; no text after it; and the day within the month. Any failure is
  a \<open>*time.ParseError\<close>.
\<close>

definition isDigit :: "string \<Rightarrow> nat \<Rightarrow> bool" where
  "isDigit s i = (i < length s \<and> isdigit (s ! i))"

definition getnum :: "string \<Rightarrow> (int \<times> string) option" where
  "getnum s =
     (if \<not> isDigit s 0 then None
      else if \<not> isDigit s 1 then None
      else Some (digit_value (s ! 0) * 10 + digit_value (s ! 1), drop 2 s))"

definition skip :: "string \<Rightarrow> char \<Rightarrow> string option" where
  "skip s c = (case s of [] \<Rightarrow> None | x # xs \<Rightarrow> if x = c then Some xs else None)"

definition Parse_date :: "string \<Rightarrow> error + Time" where
  "Parse_date s =
     (if length s < 4 \<or> \<not> isDigit s 0 then Inl (ParseError s)
      else case decimal 0 (take 4 s) of
        None \<Rightarrow> Inl (ParseError s)
      | Some year \<Rightarrow>
         (case skip (drop 4 s) CHR ''-'' of
            None \<Rightarrow> Inl (ParseError s)
          | Some s1 \<Rightarrow>
             (case getnum s1 of
                None \<Rightarrow> Inl (ParseError s)
              | Some (month, s2) \<Rightarrow>
                  if month \<le> 0 \<or> 12 < month then Inl (ParseError s)
                  else
                   (case skip s2 CHR ''-'' of
                      None \<Rightarrow> Inl (ParseError s)
                    | Some s3 \<Rightarrow>
                       (case getnum s3 of
                          None \<Rightarrow> Inl (ParseError s)
                        | Some (day, s4) \<Rightarrow>
                            if s4 \<noteq> [] then Inl (ParseError s)
                            else if day < 1 \<or> daysIn month year < day then Inl (ParseError s)
                            else Inr (Date year month day))))))"

subsection \<open>dateValue.UnmarshalJSON\<close>

text \<open>
  \<open>tv\<close> is the value the receiver points to; the result is the error returned (\<open>None\<close>
  for \<open>nil\<close>) and the value the receiver points to afterwards. \<open>json_Unmarshal\<close> stands
  for \<open>json.Unmarshal(data, &v)\<close> with \<open>v\<close> an \<open>interface{}\<close>; it reads every JSON
  number as a \<open>float64\<close>, so an integer that \<open>float64\<close> does not hold exactly reaches
  the decoder as the \<open>float64\<close> value next to it.
\<close>

definition UnmarshalJSON ::
    "(string \<Rightarrow> error + jvalue) \<Rightarrow> (float64 \<Rightarrow> int64) \<Rightarrow> dateValue \<Rightarrow> string
      \<Rightarrow> error option \<times> dateValue" where
  "UnmarshalJSON json_Unmarshal out_of_range tv data =
     (case json_Unmarshal data of
        Inl err \<Rightarrow> (Some err, tv)
      | Inr v \<Rightarrow>
         (case v of
            JNumber value \<Rightarrow> (None, UnixMilli (int64_of_float64 out_of_range value))
          | JString value \<Rightarrow>
              (case Parse_date value of
                 Inl err \<Rightarrow> (Some err, tv)
               | Inr t \<Rightarrow> (None, t))
          | JNull \<Rightarrow> (None, zero_Time)
          | _ \<Rightarrow> (Some (InvalidTimeValueType v), tv)))"

text \<open>
  Reference notions for the statements on the decoder. \<open>format_date\<close> writes a date as
  \<open>YYYY-MM-DD\<close> with zero padding (years \<open>0..9999\<close>); \<open>valid_date\<close> says that the
  triple is a date of the calendar in that range; \<open>layout_shape\<close> says that a string
  has the shape of the layout: ten characters, digits but for a \<open>-\<close> at the fifth and
  the eighth place. \<open>unix_milli\<close> reads a time as milliseconds since January 1, 1970 UTC,
  as \<open>Time.UnixMilli\<close> does.
\<close>

definition digit_char :: "int \<Rightarrow> char" where
  "digit_char k = char_of (48 + k)"

definition format_date :: "int \<Rightarrow> int \<Rightarrow> int \<Rightarrow> string" where
  "format_date y m d =
     [digit_char (y div 1000), digit_char (y div 100 mod 10), digit_char (y div 10 mod 10),
      digit_char (y mod 10), CHR ''-'',
      digit_char (m div 10), digit_char (m mod 10), CHR ''-'',
      digit_char (d div 10), digit_char (d mod 10)]"

definition valid_date :: "int \<Rightarrow> int \<Rightarrow> int \<Rightarrow> bool" where
  "valid_date y m d =
     (0 \<le> y \<and> y \<le> 9999 \<and> 1 \<le> m \<and> m \<le> 12 \<and> 1 \<le> d \<and> d \<le> daysIn m y)"

definition layout_shape :: "string \<Rightarrow> bool" where
  "layout_shape s =
     (length s = 10 \<and> s ! 4 = CHR ''-'' \<and> s ! 7 = CHR ''-''
      \<and> list_all (\<lambda>i. isdigit (s ! i)) [0, 1, 2, 3, 5, 6, 8, 9])"

definition unix_milli :: "Time \<Rightarrow> int" where
  "unix_milli t = (sec t - unixToInternal) * 1000 + nsec t div 1000000"

text \<open>A stand-in for \<open>json.Unmarshal\<close> on a few inputs, for the instances below.\<close>

definition example_Unmarshal :: "string \<Rightarrow> error + jvalue" where
  "example_Unmarshal data =
     (if data = ''null'' then Inr JNull
      else if data = ''true'' then Inr (JBool True)
      else if data = ''1700000000000'' then Inr (JNumber 1700000000000)
      else if data = ''-62135596800000'' then Inr (JNumber (- 62135596800000))
      else if data = ''[]'' then Inr (JArray [])
      else if data = ''{}'' then Inr (JObject [])
      else case data of
             [] \<Rightarrow> Inl (Opaque ''unexpected end of JSON input'')
           | c # cs \<Rightarrow>
               if c = CHR 0x22 \<and> cs \<noteq> [] \<and> last cs = CHR 0x22 then Inr (JString (butlast cs))
               else Inl (Opaque ''invalid character''))"

section \<open>Expected traces\<close>

text \<open>
  The rate-limit signal of a round, if its fetch gives one: the \<open>RetryAfter\<close> that
  \<open>errors.As\<close> finds in the error \<open>Client.List\<close> returns.
\<close>

definition rate_limit_signal ::
    "(string \<Rightarrow> error + listResponse) \<Rightarrow> round \<Rightarrow> Duration option" where
  "rate_limit_signal json_Decode r =
     (case Client_List json_Decode (list_result r) of
        Inl err \<Rightarrow> as_ErrorRateLimited err
      | Inr resp \<Rightarrow> None)"

text \<open>
  Reference notions for the statements below. \<open>pages_trace\<close> is the run that fetches
  and yields the given responses one after the other, each request carrying the next
  cursor of the response before it. \<open>cursor_chain\<close> says that the next cursors of the
  responses are non-empty up to the last one, which is empty. \<open>retry_events\<close> is a run of
  rate-limited attempts at one cursor, each followed by its wait.
\<close>

fun pages_trace :: "ListParams \<Rightarrow> string \<Rightarrow> ListResponse list \<Rightarrow> event list" where
  "pages_trace params cursor [] = []"
| "pages_trace params cursor (resp # resps) =
     Request (params\<lparr>ListParams.PageCursor := cursor\<rparr>) # Yield (Page resp) None
       # pages_trace params (ListResponse.NextPageCursor resp) resps"

definition cursor_chain :: "ListResponse list \<Rightarrow> bool" where
  "cursor_chain resps =
     (resps \<noteq> []
      \<and> (\<forall>resp \<in> set (butlast resps). ListResponse.NextPageCursor resp \<noteq> [])
      \<and> ListResponse.NextPageCursor (last resps) = [])"

definition retry_events :: "ListParams \<Rightarrow> string \<Rightarrow> Duration list \<Rightarrow> event list" where
  "retry_events params cursor ds =
     concat (map (\<lambda>d. [Request (params\<lparr>ListParams.PageCursor := cursor\<rparr>), Wait d]) ds)"

section \<open>Example data\<close>

text \<open>Concrete documents, responses and rounds, on which the theorems below are instantiated.\<close>

definition example_Time :: Time where
  "example_Time = \<lparr> sec = 63838368000, nsec = 0, loc = UTC \<rparr>"

definition example_document :: "string \<Rightarrow> string \<Rightarrow> document" where
  "example_document ident title =
     \<lparr> document.ID = ident,
       document.URL = ''https://read.example/'' @ ident,
       document.SourceURL = ''https://example.org/post'',
       document.Title = title,
       document.Author = ''A. Writer'',
       document.Source = ''reader'',
       document.Category = ''article'',
       document.Location = ''new'',
       document.Tags = [(''go'', JObject [(''name'', JString ''go'')])],
       document.SiteName = ''example.org'',
       document.WordCount = 1200,
       document.CreatedAt = example_Time,
       document.UpdatedAt = example_Time,
       document.Notes = [],
       document.PublishedDate = zero_Time,
       document.Summary = ''A post'',
       document.ImageURL = [],
       document.ParentID = [],
       document.ReadingProgress = 1 / 4,
       document.FirstOpenedAt = zero_Time,
       document.LastOpenedAt = zero_Time,
       document.SavedAt = example_Time,
       document.LastMovedAt = example_Time \<rparr>"

definition wire_page1 :: listResponse where
  "wire_page1 =
     \<lparr> listResponse.Count = 3, listResponse.NextPageCursor = ''cursor-2'',
       listResponse.Results = [example_document ''d1'' ''First'', example_document ''d2'' ''Second''] \<rparr>"

definition wire_page2 :: listResponse where
  "wire_page2 =
     \<lparr> listResponse.Count = 3, listResponse.NextPageCursor = [],
       listResponse.Results = [example_document ''d3'' ''Third''] \<rparr>"

definition example_Decode :: "string \<Rightarrow> error + listResponse" where
  "example_Decode body =
     (if body = ''page-1'' then Inr wire_page1
      else if body = ''page-2'' then Inr wire_page2
      else Inl (Opaque ''unexpected end of JSON input''))"

definition example_params :: ListParams where
  "example_params =
     \<lparr> ListParams.ID = [], ListParams.UpdatedAfter = zero_Time, ListParams.Location = ''new'',
       ListParams.Category = [], ListParams.PageCursor = [], ListParams.WithHTMLContent = False \<rparr>"

text \<open>A round whose request is answered 200 with the given body.\<close>

definition ok_round :: "string \<Rightarrow> bool \<Rightarrow> round" where
  "ok_round body wants_more =
     \<lparr> list_result = Inr \<lparr> StatusCode = 200, Header = [], Body = body \<rparr>,
       ctx_Err = None, select = TimerFired, yield_more = wants_more \<rparr>"

text \<open>A round whose request is answered 429 with the given \<open>Retry-After\<close> header.\<close>

definition limited_round :: "string \<Rightarrow> error option \<Rightarrow> select_case \<Rightarrow> round" where
  "limited_round retryAfter cerr sel =
     \<lparr> list_result =
         Inr \<lparr> StatusCode = 429, Header = [(''Retry-After'', [retryAfter])], Body = [] \<rparr>,
       ctx_Err = cerr, select = sel, yield_more = True \<rparr>"

section \<open>Properties of the conversion\<close>

lemma append_results_map:
  "append_results results drs = results @ map toDocument drs"
  by (induction drs arbitrary: results) simp_all

lemma toDocument_fields:
  "Document.ID (toDocument dr) = document.ID dr"
  "Document.URL (toDocument dr) = document.URL dr"
  "Document.SourceURL (toDocument dr) = document.SourceURL dr"
  "Document.Title (toDocument dr) = document.Title dr"
  "Document.Author (toDocument dr) = document.Author dr"
  "Document.Source (toDocument dr) = document.Source dr"
  "Document.Category (toDocument dr) = document.Category dr"
  "Document.Location (toDocument dr) = document.Location dr"
  "Document.Tags (toDocument dr) = document.Tags dr"
  "Document.SiteName (toDocument dr) = document.SiteName dr"
  "Document.WordCount (toDocument dr) = document.WordCount dr"
  "Document.CreatedAt (toDocument dr) = document.CreatedAt dr"
  "Document.UpdatedAt (toDocument dr) = document.UpdatedAt dr"
  "Document.Notes (toDocument dr) = document.Notes dr"
  "Document.PublishedDate (toDocument dr) = document.PublishedDate dr"
  "Document.Summary (toDocument dr) = document.Summary dr"
  "Document.ImageURL (toDocument dr) = document.ImageURL dr"
  "Document.ParentID (toDocument dr) = document.ParentID dr"
  "Document.ReadingProgress (toDocument dr) = document.ReadingProgress dr"
  "Document.FirstOpenedAt (toDocument dr) = document.FirstOpenedAt dr"
  "Document.LastOpenedAt (toDocument dr) = document.LastOpenedAt dr"
  "Document.SavedAt (toDocument dr) = document.SavedAt dr"
  "Document.LastMovedAt (toDocument dr) = document.LastMovedAt dr"
  by (simp_all add: toDocument_def)

lemma toListResponse_Results:
  "Page.Results (Page (toListResponse lr)) = map toDocument (listResponse.Results lr)"
  by (simp add: toListResponse_def append_results_map)

text \<open>
  Claim C10. Converting a decoded wire-format list response keeps the number and the
  order of the documents: the page's results are the wire results converted one by one
  (so both lists have the same length), the count and the next-page cursor are carried
  over unchanged, and at every index \<open>i\<close> the document is \<open>toDocument\<close> of the wire
  document at \<open>i\<close> and agrees with it on each of the 23 fields.
\<close>

theorem toListResponse_preserves:
  "Page.Results (Page (toListResponse lr)) = map toDocument (listResponse.Results lr)
   \<and> length (Page.Results (Page (toListResponse lr))) = length (listResponse.Results lr)
   \<and> Page.Count (Page (toListResponse lr)) = listResponse.Count lr
   \<and> ListResponse.NextPageCursor (toListResponse lr) = listResponse.NextPageCursor lr
   \<and> (\<forall>i < length (listResponse.Results lr).
        Page.Results (Page (toListResponse lr)) ! i = toDocument (listResponse.Results lr ! i)
        \<and> Document.ID (Page.Results (Page (toListResponse lr)) ! i) = document.ID (listResponse.Results lr ! i)
        \<and> Document.URL (Page.Results (Page (toListResponse lr)) ! i) = document.URL (listResponse.Results lr ! i)
        \<and> Document.SourceURL (Page.Results (Page (toListResponse lr)) ! i) = document.SourceURL (listResponse.Results lr ! i)
        \<and> Document.Title (Page.Results (Page (toListResponse lr)) ! i) = document.Title (listResponse.Results lr ! i)
        \<and> Document.Author (Page.Results (Page (toListResponse lr)) ! i) = document.Author (listResponse.Results lr ! i)
        \<and> Document.Source (Page.Results (Page (toListResponse lr)) ! i) = document.Source (listResponse.Results lr ! i)
        \<and> Document.Category (Page.Results (Page (toListResponse lr)) ! i) = document.Category (listResponse.Results lr ! i)
        \<and> Document.Location (Page.Results (Page (toListResponse lr)) ! i) = document.Location (listResponse.Results lr ! i)
        \<and> Document.Tags (Page.Results (Page (toListResponse lr)) ! i) = document.Tags (listResponse.Results lr ! i)
        \<and> Document.SiteName (Page.Results (Page (toListResponse lr)) ! i) = document.SiteName (listResponse.Results lr ! i)
        \<and> Document.WordCount (Page.Results (Page (toListResponse lr)) ! i) = document.WordCount (listResponse.Results lr ! i)
        \<and> Document.CreatedAt (Page.Results (Page (toListResponse lr)) ! i) = document.CreatedAt (listResponse.Results lr ! i)
        \<and> Document.UpdatedAt (Page.Results (Page (toListResponse lr)) ! i) = document.UpdatedAt (listResponse.Results lr ! i)
        \<and> Document.Notes (Page.Results (Page (toListResponse lr)) ! i) = document.Notes (listResponse.Results lr ! i)
        \<and> Document.PublishedDate (Page.Results (Page (toListResponse lr)) ! i) = document.PublishedDate (listResponse.Results lr ! i)
        \<and> Document.Summary (Page.Results (Page (toListResponse lr)) ! i) = document.Summary (listResponse.Results lr ! i)
        \<and> Document.ImageURL (Page.Results (Page (toListResponse lr)) ! i) = document.ImageURL (listResponse.Results lr ! i)
        \<and> Document.ParentID (Page.Results (Page (toListResponse lr)) ! i) = document.ParentID (listResponse.Results lr ! i)
        \<and> Document.ReadingProgress (Page.Results (Page (toListResponse lr)) ! i) = document.ReadingProgress (listResponse.Results lr ! i)
        \<and> Document.FirstOpenedAt (Page.Results (Page (toListResponse lr)) ! i) = document.FirstOpenedAt (listResponse.Results lr ! i)
        \<and> Document.LastOpenedAt (Page.Results (Page (toListResponse lr)) ! i) = document.LastOpenedAt (listResponse.Results lr ! i)
        \<and> Document.SavedAt (Page.Results (Page (toListResponse lr)) ! i) = document.SavedAt (listResponse.Results lr ! i)
        \<and> Document.LastMovedAt (Page.Results (Page (toListResponse lr)) ! i) = document.LastMovedAt (listResponse.Results lr ! i))"
proof -
  have nth: "Page.Results (Page (toListResponse lr)) ! i = toDocument (listResponse.Results lr ! i)"
    if "i < length (listResponse.Results lr)" for i
    using that by (simp add: toListResponse_Results)
  have rest: "Page.Count (Page (toListResponse lr)) = listResponse.Count lr"
    "ListResponse.NextPageCursor (toListResponse lr) = listResponse.NextPageCursor lr"
    by (simp_all add: toListResponse_def)
  show ?thesis
    by (simp add: nth toDocument_fields rest) (simp add: toListResponse_Results)
qed

theorem toListResponse_preserves_witness:
  "(1::nat) < length (listResponse.Results wire_page1)
   \<and> length (Page.Results (Page (toListResponse wire_page1))) = 2
   \<and> Page.Results (Page (toListResponse wire_page1)) ! 1
       = toDocument (example_document ''d2'' ''Second'')
   \<and> Document.ID (Page.Results (Page (toListResponse wire_page1)) ! 1) = ''d2''
   \<and> Document.Title (Page.Results (Page (toListResponse wire_page1)) ! 1) = ''Second''
   \<and> Document.WordCount (Page.Results (Page (toListResponse wire_page1)) ! 1) = 1200
   \<and> Document.PublishedDate (Page.Results (Page (toListResponse wire_page1)) ! 1) = zero_Time
   \<and> Page.Count (Page (toListResponse wire_page1)) = 3
   \<and> ListResponse.NextPageCursor (toListResponse wire_page1) = ''cursor-2''"
proof -
  have i: "(1::nat) < length (listResponse.Results wire_page1)"
    by (simp add: wire_page1_def)
  have wire: "listResponse.Results wire_page1 ! Suc 0 = example_document ''d2'' ''Second''"
    "listResponse.Count wire_page1 = 3" "listResponse.NextPageCursor wire_page1 = ''cursor-2''"
    "length (listResponse.Results wire_page1) = 2"
    by (simp_all add: wire_page1_def)
  have doc: "document.ID (example_document ''d2'' ''Second'') = ''d2''"
    "document.Title (example_document ''d2'' ''Second'') = ''Second''"
    "document.WordCount (example_document ''d2'' ''Second'') = 1200"
    "document.PublishedDate (example_document ''d2'' ''Second'') = zero_Time"
    by (simp_all add: example_document_def)
  from toListResponse_preserves [of wire_page1]
  have "\<forall>i < length (listResponse.Results wire_page1).
          Page.Results (Page (toListResponse wire_page1)) ! i
            = toDocument (listResponse.Results wire_page1 ! i)"
    and "Page.Count (Page (toListResponse wire_page1)) = listResponse.Count wire_page1"
    and "ListResponse.NextPageCursor (toListResponse wire_page1)
           = listResponse.NextPageCursor wire_page1"
    and "length (Page.Results (Page (toListResponse wire_page1)))
           = length (listResponse.Results wire_page1)"
    by simp_all
  with i show ?thesis
    by (simp add: wire doc toDocument_fields)
qed

section \<open>Properties of the iterator\<close>

subsection \<open>One turn of the loop, case by case\<close>

lemma loop_body_success:
  assumes "Client_List dec (list_result r) = Inr resp"
  shows "loop_body dec r params c =
           ([Request (params\<lparr>ListParams.PageCursor := c\<rparr>), Yield (Page resp) None],
            if yield_more r \<and> ListResponse.NextPageCursor resp \<noteq> []
            then Continue (ListResponse.NextPageCursor resp) else Return)"
  using assms by (simp add: loop_body_def Let_def)

lemma loop_body_error:
  assumes "Client_List dec (list_result r) = Inl e" and "as_ErrorRateLimited e = None"
  shows "loop_body dec r params c =
           ([Request (params\<lparr>ListParams.PageCursor := c\<rparr>), Yield empty_Page (Some e)], Return)"
  using assms by (simp add: loop_body_def)

lemma loop_body_retry:
  assumes "rate_limit_signal dec r = Some d"
    and "ctx_Err r = None" and "select r = TimerFired"
  shows "loop_body dec r params c =
           ([Request (params\<lparr>ListParams.PageCursor := c\<rparr>), Wait d], Continue c)"
  using assms by (simp add: loop_body_def rate_limit_signal_def)

lemma loop_body_cancelled_wait:
  assumes "rate_limit_signal dec r = Some d"
    and "ctx_Err r = None" and "select r = CtxDone cerr"
  shows "loop_body dec r params c =
           ([Request (params\<lparr>ListParams.PageCursor := c\<rparr>), Wait d,
             Yield empty_Page (Some cerr)], Return)"
  using assms by (simp add: loop_body_def rate_limit_signal_def)

lemma loop_body_cancelled_before:
  assumes "rate_limit_signal dec r = Some d"
    and "ctx_Err r = Some cerr"
  shows "loop_body dec r params c =
           ([Request (params\<lparr>ListParams.PageCursor := c\<rparr>), Yield empty_Page (Some cerr)],
            Return)"
  using assms by (simp add: loop_body_def rate_limit_signal_def)

lemma loop_body_PageCursor:
  "loop_body dec r (params\<lparr>ListParams.PageCursor := x\<rparr>) c = loop_body dec r params c"
  by (simp add: loop_body_def)

lemma loop_body_first_event:
  "\<exists>evs. fst (loop_body dec r params c) = Request (params\<lparr>ListParams.PageCursor := c\<rparr>) # evs"
  by (simp add: loop_body_def Let_def split: option.split sum.split select_case.split)

subsection \<open>The loop as a whole\<close>

lemma for_loop_PageCursor:
  "for_loop dec (params\<lparr>ListParams.PageCursor := x\<rparr>) c rs = for_loop dec params c rs"
proof (induction rs arbitrary: params c x)
  case Nil
  show ?case by simp
next
  case (Cons r rs)
  have "for_loop dec (params\<lparr>ListParams.PageCursor := x, ListParams.PageCursor := c\<rparr>) c' rs
          = for_loop dec (params\<lparr>ListParams.PageCursor := c\<rparr>) c' rs" for c'
    by simp
  then show ?case
    by (simp add: loop_body_PageCursor)
qed

lemma for_loop_Cons_Return:
  assumes "loop_body dec r params c = (evs, Return)"
  shows "for_loop dec params c (r # rs) = (evs, Return)"
  using assms by simp

lemma for_loop_Cons_Continue:
  assumes "loop_body dec r params c = (evs, Continue c')"
  shows "for_loop dec params c (r # rs) =
           (evs @ fst (for_loop dec params c' rs), snd (for_loop dec params c' rs))"
  using assms by (simp add: for_loop_PageCursor split: prod.split)

lemma for_loop_append_Continue:
  assumes "for_loop dec params c pre = (evs, Continue c')"
  shows "for_loop dec params c (pre @ post) =
           (evs @ fst (for_loop dec params c' post), snd (for_loop dec params c' post))"
  using assms
proof (induction pre arbitrary: c evs)
  case Nil
  then show ?case by simp
next
  case (Cons r pre)
  obtain es ctl where body: "loop_body dec r params c = (es, ctl)"
    by (cases "loop_body dec r params c")
  show ?case
  proof (cases ctl)
    case Return
    with body Cons.prems show ?thesis
      by (simp add: for_loop_Cons_Return)
  next
    case (Continue c1)
    obtain es1 ctl1 where rest: "for_loop dec params c1 pre = (es1, ctl1)"
      by (cases "for_loop dec params c1 pre")
    from body Continue have step:
      "for_loop dec params c (r # xs) =
         (es @ fst (for_loop dec params c1 xs), snd (for_loop dec params c1 xs))" for xs
      by (simp only: for_loop_Cons_Continue)
    from step [of pre] rest Cons.prems have "evs = es @ es1" and "ctl1 = Continue c'"
      by simp_all
    with Cons.IH [of c1 es1] rest have "for_loop dec params c1 (pre @ post) = (es1 @ fst (for_loop dec params c' post), snd (for_loop dec params c' post))"
      by simp
    then show ?thesis
      using step [of "pre @ post"] \<open>evs = es @ es1\<close> by simp
  qed
qed

lemma for_loop_append_Return:
  assumes "for_loop dec params c pre = (evs, Return)"
  shows "for_loop dec params c (pre @ post) = (evs, Return)"
  using assms
proof (induction pre arbitrary: c evs)
  case Nil
  then show ?case by simp
next
  case (Cons r pre)
  obtain es ctl where body: "loop_body dec r params c = (es, ctl)"
    by (cases "loop_body dec r params c")
  show ?case
  proof (cases ctl)
    case Return
    with body Cons.prems show ?thesis
      by (simp add: for_loop_Cons_Return)
  next
    case (Continue c1)
    obtain es1 ctl1 where rest: "for_loop dec params c1 pre = (es1, ctl1)"
      by (cases "for_loop dec params c1 pre")
    from body Continue have step:
      "for_loop dec params c (r # xs) =
         (es @ fst (for_loop dec params c1 xs), snd (for_loop dec params c1 xs))" for xs
      by (simp only: for_loop_Cons_Continue)
    from step [of pre] rest Cons.prems have "evs = es @ es1" and "ctl1 = Return"
      by simp_all
    with Cons.IH [of c1 es1] rest have "for_loop dec params c1 (pre @ post) = (es1, Return)"
      by simp
    then show ?thesis
      using step [of "pre @ post"] \<open>evs = es @ es1\<close> by simp
  qed
qed

lemma yielded_append: "yielded (xs @ ys) = yielded xs @ yielded ys"
  by (induction xs rule: yielded.induct) simp_all

lemma requests_append: "requests (xs @ ys) = requests xs @ requests ys"
  by (induction xs rule: requests.induct) simp_all

lemma waits_append: "waits (xs @ ys) = waits xs @ waits ys"
  by (induction xs rule: waits.induct) simp_all

subsection \<open>Claim C1: a chain of pages\<close>

lemma yielded_pages_trace:
  "yielded (pages_trace params c resps) = map (\<lambda>resp. (Page resp, None)) resps"
  by (induction resps arbitrary: c) simp_all

lemma waits_pages_trace: "waits (pages_trace params c resps) = []"
  by (induction resps arbitrary: c) simp_all

lemma requests_pages_trace:
  "requests (pages_trace params c resps) =
     map (\<lambda>x. params\<lparr>ListParams.PageCursor := x\<rparr>)
       (take (length resps) (c # map ListResponse.NextPageCursor resps))"
  by (induction resps arbitrary: c) simp_all

lemma cursor_chain_Cons:
  "cursor_chain (a # resps) =
     (if resps = [] then ListResponse.NextPageCursor a = []
      else ListResponse.NextPageCursor a \<noteq> [] \<and> cursor_chain resps)"
  by (auto simp: cursor_chain_def)

lemma for_loop_pages:
  assumes "cursor_chain resps"
    and "map (\<lambda>r. Client_List dec (list_result r)) (take (length resps) rounds) = map Inr resps"
    and "\<forall>r \<in> set (take (length resps - 1) rounds). yield_more r"
  shows "for_loop dec params c rounds = (pages_trace params c resps, Return)"
  using assms
proof (induction resps arbitrary: rounds c)
  case Nil
  then show ?case by (simp add: cursor_chain_def)
next
  case (Cons a resps)
  from Cons.prems(2) obtain r rs where rounds: "rounds = r # rs"
    by (cases rounds) auto
  with Cons.prems(2) have fetch: "Client_List dec (list_result r) = Inr a"
    and rest: "map (\<lambda>r. Client_List dec (list_result r)) (take (length resps) rs) = map Inr resps"
    by simp_all
  show ?case
  proof (cases "resps = []")
    case True
    with Cons.prems(1) have "ListResponse.NextPageCursor a = []"
      by (simp add: cursor_chain_Cons)
    with fetch True rounds show ?thesis
      by (simp add: loop_body_success for_loop_Cons_Return)
  next
    case False
    with Cons.prems(1) have next_cursor: "ListResponse.NextPageCursor a \<noteq> []"
      and chain: "cursor_chain resps"
      by (simp_all add: cursor_chain_Cons)
    from False obtain n where n: "length resps = Suc n"
      by (cases resps) auto
    with Cons.prems(3) rounds have more: "yield_more r"
      and more_rest: "\<forall>r \<in> set (take (length resps - 1) rs). yield_more r"
      by simp_all
    from fetch next_cursor more have
      "loop_body dec r params c =
         ([Request (params\<lparr>ListParams.PageCursor := c\<rparr>), Yield (Page a) None],
          Continue (ListResponse.NextPageCursor a))"
      by (simp add: loop_body_success)
    then have "for_loop dec params c (r # rs) =
        ([Request (params\<lparr>ListParams.PageCursor := c\<rparr>), Yield (Page a) None]
           @ fst (for_loop dec params (ListResponse.NextPageCursor a) rs),
         snd (for_loop dec params (ListResponse.NextPageCursor a) rs))"
      by (rule for_loop_Cons_Continue)
    with Cons.IH [OF chain rest more_rest, of "ListResponse.NextPageCursor a"] rounds
    show ?thesis by simp
  qed
qed

text \<open>
  Claim C1. Let the fetcher return, for the first requests of a run, the successes
  \<open>resps\<close>, whose next cursors are non-empty up to the last one, which is empty, and let
  the consumer ask for more after every page but possibly the last. Then \<open>ListPaginate\<close>
  returns, and what it did is exactly: request and yield each of these pages in the
  order fetched, the first request with the caller's cursor and every later one with the
  next cursor of the page before. So the items yielded are these pages, each with a nil
  error, no error item is yielded, nothing is waited for, and the number of requests is
  the number of pages: none is issued after the page with the empty next cursor,
  whatever rounds the world would have played further.
\<close>

theorem ListPaginate_yields_chain:
  assumes "cursor_chain resps"
    and "map (\<lambda>r. Client_List dec (list_result r)) (take (length resps) rounds) = map Inr resps"
    and "\<forall>r \<in> set (take (length resps - 1) rounds). yield_more r"
  shows "Client_ListPaginate dec params rounds
           = Some (pages_trace params (ListParams.PageCursor params) resps)
         \<and> yielded (pages_trace params (ListParams.PageCursor params) resps)
             = map (\<lambda>resp. (Page resp, None)) resps
         \<and> requests (pages_trace params (ListParams.PageCursor params) resps)
             = map (\<lambda>x. params\<lparr>ListParams.PageCursor := x\<rparr>)
                 (take (length resps)
                    (ListParams.PageCursor params # map ListResponse.NextPageCursor resps))
         \<and> waits (pages_trace params (ListParams.PageCursor params) resps) = []"
  using for_loop_pages [OF assms, of params "ListParams.PageCursor params"]
  by (simp add: Client_ListPaginate_def yielded_pages_trace requests_pages_trace
      waits_pages_trace)

theorem ListPaginate_yields_chain_witness:
  "cursor_chain [toListResponse wire_page1, toListResponse wire_page2]
   \<and> Client_List example_Decode (list_result (ok_round ''page-1'' True))
       = Inr (toListResponse wire_page1)
   \<and> Client_List example_Decode (list_result (ok_round ''page-2'' False))
       = Inr (toListResponse wire_page2)
   \<and> yield_more (ok_round ''page-1'' True)
   \<and> Client_ListPaginate example_Decode example_params
       [ok_round ''page-1'' True, ok_round ''page-2'' False, ok_round ''page-1'' True]
     = Some [Request example_params, Yield (Page (toListResponse wire_page1)) None,
             Request (example_params\<lparr>ListParams.PageCursor := ''cursor-2''\<rparr>),
             Yield (Page (toListResponse wire_page2)) None]"
  using ListPaginate_yields_chain [of "[toListResponse wire_page1, toListResponse wire_page2]"
      example_Decode "[ok_round ''page-1'' True, ok_round ''page-2'' False, ok_round ''page-1'' True]"
      example_params]
  by (simp add: cursor_chain_def Client_List_def example_Decode_def ok_round_def
      toListResponse_def wire_page1_def wire_page2_def example_params_def)

subsection \<open>Claim C2: a rate-limited attempt is retried at the same cursor\<close>

lemma for_loop_retries:
  assumes "map (rate_limit_signal dec) rls = map Some ds"
    and "\<forall>r \<in> set rls. ctx_Err r = None \<and> select r = TimerFired"
  shows "for_loop dec params c (rls @ rest) =
           (retry_events params c ds @ fst (for_loop dec params c rest),
            snd (for_loop dec params c rest))"
  using assms
proof (induction rls arbitrary: ds)
  case Nil
  then show ?case by (simp add: retry_events_def)
next
  case (Cons r rls)
  from Cons.prems(1) obtain d ds' where ds: "ds = d # ds'"
    and signal: "rate_limit_signal dec r = Some d"
    and rest: "map (rate_limit_signal dec) rls = map Some ds'"
    by (cases ds) auto
  from Cons.prems(2) have live: "ctx_Err r = None" "select r = TimerFired"
    and live_rest: "\<forall>r \<in> set rls. ctx_Err r = None \<and> select r = TimerFired"
    by simp_all
  have "for_loop dec params c (r # (rls @ rest)) =
          ([Request (params\<lparr>ListParams.PageCursor := c\<rparr>), Wait d]
             @ fst (for_loop dec params c (rls @ rest)),
           snd (for_loop dec params c (rls @ rest)))"
    by (rule for_loop_Cons_Continue) (rule loop_body_retry [OF signal live])
  with Cons.IH [OF rest live_rest] ds show ?case
    by (simp add: retry_events_def)
qed

text \<open>
  Claim C2. From any state of the iteration (any parameters and cursor \<open>c\<close>): if the
  fetches of the rounds \<open>rls\<close> all return a rate-limit signal (with the durations
  \<open>ds\<close>) and each wait completes without cancellation, then for every one of them a
  request with cursor \<open>c\<close> was issued and its duration waited for, and the loop goes on
  from the same cursor \<open>c\<close> with the rounds that follow. The number of such rounds is
  arbitrary: the retry has no count or budget. Whatever the next round \<open>r'\<close> is, the
  next event is a request with cursor \<open>c\<close> again; and if that fetch succeeds with
  \<open>resp\<close>, its page is yielded to the consumer right after the request.
\<close>

theorem rate_limit_retry_same_cursor:
  assumes "map (rate_limit_signal dec) rls = map Some ds"
    and "\<forall>r \<in> set rls. ctx_Err r = None \<and> select r = TimerFired"
  shows "for_loop dec params c (rls @ rest) =
           (retry_events params c ds @ fst (for_loop dec params c rest),
            snd (for_loop dec params c rest))
         \<and> (\<exists>evs. fst (for_loop dec params c (rls @ r' # rest')) =
               retry_events params c ds
                 @ Request (params\<lparr>ListParams.PageCursor := c\<rparr>) # evs)
         \<and> (Client_List dec (list_result r') = Inr resp \<longrightarrow>
              fst (for_loop dec params c (rls @ r' # rest')) =
                retry_events params c ds
                  @ [Request (params\<lparr>ListParams.PageCursor := c\<rparr>), Yield (Page resp) None]
                  @ (if yield_more r' \<and> ListResponse.NextPageCursor resp \<noteq> []
                     then fst (for_loop dec params (ListResponse.NextPageCursor resp) rest')
                     else []))"
proof (intro conjI impI)
  show "for_loop dec params c (rls @ rest) =
          (retry_events params c ds @ fst (for_loop dec params c rest),
           snd (for_loop dec params c rest))"
    by (rule for_loop_retries [OF assms])
next
  obtain es where es: "fst (loop_body dec r' params c)
      = Request (params\<lparr>ListParams.PageCursor := c\<rparr>) # es"
    using loop_body_first_event by blast
  obtain body_evs ctl where body: "loop_body dec r' params c = (body_evs, ctl)"
    by (cases "loop_body dec r' params c")
  with es have "\<exists>evs. fst (for_loop dec params c (r' # rest'))
      = Request (params\<lparr>ListParams.PageCursor := c\<rparr>) # evs"
    by (cases ctl) (simp_all add: for_loop_Cons_Continue for_loop_Cons_Return del: for_loop.simps)
  then show "\<exists>evs. fst (for_loop dec params c (rls @ r' # rest')) =
      retry_events params c ds @ Request (params\<lparr>ListParams.PageCursor := c\<rparr>) # evs"
    by (simp add: for_loop_retries [OF assms])
next
  assume ok: "Client_List dec (list_result r') = Inr resp"
  show "fst (for_loop dec params c (rls @ r' # rest')) =
          retry_events params c ds
            @ [Request (params\<lparr>ListParams.PageCursor := c\<rparr>), Yield (Page resp) None]
            @ (if yield_more r' \<and> ListResponse.NextPageCursor resp \<noteq> []
               then fst (for_loop dec params (ListResponse.NextPageCursor resp) rest')
               else [])"
    by (simp add: for_loop_retries [OF assms] loop_body_success [OF ok] for_loop_PageCursor
        split: prod.split)
qed

theorem rate_limit_retry_same_cursor_witness:
  "rate_limit_signal example_Decode (limited_round ''2'' None TimerFired) = Some 2000000000
   \<and> rate_limit_signal example_Decode (limited_round ''0'' None TimerFired) = Some 0
   \<and> Client_List example_Decode (list_result (ok_round ''page-2'' True))
       = Inr (toListResponse wire_page2)
   \<and> fst (for_loop example_Decode example_params ''cursor-2''
            ([limited_round ''2'' None TimerFired, limited_round ''0'' None TimerFired]
               @ ok_round ''page-2'' True # []))
       = [Request (example_params\<lparr>ListParams.PageCursor := ''cursor-2''\<rparr>), Wait 2000000000,
          Request (example_params\<lparr>ListParams.PageCursor := ''cursor-2''\<rparr>), Wait 0,
          Request (example_params\<lparr>ListParams.PageCursor := ''cursor-2''\<rparr>),
          Yield (Page (toListResponse wire_page2)) None]"
proof -
  have s1: "rate_limit_signal example_Decode (limited_round ''2'' None TimerFired)
      = Some 2000000000"
    by (simp add: rate_limit_signal_def Client_List_def limited_round_def Header_Get_def
        Atoi_def isdigit_def digit_value_def Second_def)
  have s2: "rate_limit_signal example_Decode (limited_round ''0'' None TimerFired) = Some 0"
    by (simp add: rate_limit_signal_def Client_List_def limited_round_def Header_Get_def
        Atoi_def isdigit_def digit_value_def Second_def)
  have ok: "Client_List example_Decode (list_result (ok_round ''page-2'' True))
      = Inr (toListResponse wire_page2)"
    by (simp add: Client_List_def ok_round_def example_Decode_def)
  have cur: "ListResponse.NextPageCursor (toListResponse wire_page2) = []"
    by (simp add: toListResponse_def wire_page2_def)
  have live: "\<forall>r \<in> set [limited_round ''2'' None TimerFired, limited_round ''0'' None TimerFired].
      ctx_Err r = None \<and> select r = TimerFired"
    by (simp add: limited_round_def)
  from rate_limit_retry_same_cursor
    [where dec = example_Decode
       and rls = "[limited_round ''2'' None TimerFired, limited_round ''0'' None TimerFired]"
       and ds = "[2000000000, 0]" and params = example_params and c = "''cursor-2''"
       and rest = "[]" and r' = "ok_round ''page-2'' True" and rest' = "[]"
       and resp = "toListResponse wire_page2", OF _ live]
  show ?thesis
    by (simp add: s1 s2 ok cur retry_events_def)
qed

subsection \<open>Claims C3, C4 and C6: how a run ends early\<close>

text \<open>
  In the three theorems that follow the iterator has played the rounds \<open>pre\<close>, done the
  events \<open>evs\<close> and is about to fetch at cursor \<open>c\<close>; \<open>r\<close> is the round it plays
  next and \<open>rest\<close> are the rounds the world would play after it.
\<close>

text \<open>
  Claim C3. If the fetch of \<open>r\<close> returns a rate-limit signal, the caller is not yet
  cancelled when the signal is inspected, and cancellation fires during the wait, then
  the iterator returns; after the request and the start of the wait it yields exactly
  one item, the zero page with the cancellation error, which is the last event of the
  run. No request follows: the run ends there whatever \<open>rest\<close> is.
\<close>

theorem cancel_during_wait:
  assumes "for_loop dec params (ListParams.PageCursor params) pre = (evs, Continue c)"
    and "rate_limit_signal dec r = Some d"
    and "ctx_Err r = None"
    and "select r = CtxDone cerr"
  shows "Client_ListPaginate dec params (pre @ r # rest) =
           Some (evs @ [Request (params\<lparr>ListParams.PageCursor := c\<rparr>), Wait d,
                        Yield empty_Page (Some cerr)])
         \<and> yielded (evs @ [Request (params\<lparr>ListParams.PageCursor := c\<rparr>), Wait d,
                            Yield empty_Page (Some cerr)])
             = yielded evs @ [(empty_Page, Some cerr)]
         \<and> requests (evs @ [Request (params\<lparr>ListParams.PageCursor := c\<rparr>), Wait d,
                             Yield empty_Page (Some cerr)])
             = requests evs @ [params\<lparr>ListParams.PageCursor := c\<rparr>]"
proof -
  have "for_loop dec params c (r # rest) =
          ([Request (params\<lparr>ListParams.PageCursor := c\<rparr>), Wait d,
            Yield empty_Page (Some cerr)], Return)"
    by (rule for_loop_Cons_Return) (rule loop_body_cancelled_wait [OF assms(2-4)])
  with for_loop_append_Continue [OF assms(1), of "r # rest"]
  show ?thesis
    by (simp add: Client_ListPaginate_def yielded_append requests_append)
qed

theorem cancel_during_wait_witness:
  "for_loop example_Decode example_params (ListParams.PageCursor example_params)
       [ok_round ''page-1'' True]
     = ([Request example_params, Yield (Page (toListResponse wire_page1)) None],
        Continue ''cursor-2'')
   \<and> rate_limit_signal example_Decode (limited_round ''2'' None (CtxDone Canceled))
       = Some 2000000000
   \<and> Client_ListPaginate example_Decode example_params
       ([ok_round ''page-1'' True] @ limited_round ''2'' None (CtxDone Canceled)
          # [ok_round ''page-2'' True])
     = Some [Request example_params, Yield (Page (toListResponse wire_page1)) None,
             Request (example_params\<lparr>ListParams.PageCursor := ''cursor-2''\<rparr>),
             Wait 2000000000, Yield empty_Page (Some Canceled)]"
proof -
  have pre: "for_loop example_Decode example_params (ListParams.PageCursor example_params)
       [ok_round ''page-1'' True]
     = ([Request example_params, Yield (Page (toListResponse wire_page1)) None],
        Continue ''cursor-2'')"
    by (simp add: loop_body_def Client_List_def ok_round_def example_Decode_def
        toListResponse_def wire_page1_def example_params_def)
  have signal: "rate_limit_signal example_Decode (limited_round ''2'' None (CtxDone Canceled))
      = Some 2000000000"
    by (simp add: rate_limit_signal_def Client_List_def limited_round_def Header_Get_def
        Atoi_def isdigit_def digit_value_def Second_def)
  have live: "ctx_Err (limited_round ''2'' None (CtxDone Canceled)) = None"
    "select (limited_round ''2'' None (CtxDone Canceled)) = CtxDone Canceled"
    by (simp_all add: limited_round_def)
  from cancel_during_wait [OF pre signal live, of "[ok_round ''page-2'' True]"] pre signal
  show ?thesis by simp
qed

text \<open>
  Claim C4. If the caller is already cancelled when the iterator inspects the rate-limit
  signal of \<open>r\<close>, the iterator yields the zero page with the cancellation error as its
  last item right after the request and returns: this turn starts no wait, and nothing
  follows.
\<close>

theorem cancelled_before_wait:
  assumes "for_loop dec params (ListParams.PageCursor params) pre = (evs, Continue c)"
    and "rate_limit_signal dec r = Some d"
    and "ctx_Err r = Some cerr"
  shows "Client_ListPaginate dec params (pre @ r # rest) =
           Some (evs @ [Request (params\<lparr>ListParams.PageCursor := c\<rparr>),
                        Yield empty_Page (Some cerr)])
         \<and> waits (evs @ [Request (params\<lparr>ListParams.PageCursor := c\<rparr>),
                          Yield empty_Page (Some cerr)]) = waits evs
         \<and> yielded (evs @ [Request (params\<lparr>ListParams.PageCursor := c\<rparr>),
                            Yield empty_Page (Some cerr)])
             = yielded evs @ [(empty_Page, Some cerr)]"
proof -
  have "for_loop dec params c (r # rest) =
          ([Request (params\<lparr>ListParams.PageCursor := c\<rparr>), Yield empty_Page (Some cerr)],
           Return)"
    by (rule for_loop_Cons_Return) (rule loop_body_cancelled_before [OF assms(2,3)])
  with for_loop_append_Continue [OF assms(1), of "r # rest"]
  show ?thesis
    by (simp add: Client_ListPaginate_def yielded_append waits_append)
qed

theorem cancelled_before_wait_witness:
  "for_loop example_Decode example_params (ListParams.PageCursor example_params) []
     = ([], Continue [])
   \<and> rate_limit_signal example_Decode (limited_round ''30'' (Some Canceled) TimerFired)
       = Some 30000000000
   \<and> Client_ListPaginate example_Decode example_params
       ([] @ limited_round ''30'' (Some Canceled) TimerFired # [ok_round ''page-1'' True])
     = Some [Request example_params, Yield empty_Page (Some Canceled)]"
proof -
  have pre: "for_loop example_Decode example_params (ListParams.PageCursor example_params) []
     = ([], Continue [])"
    by (simp add: example_params_def)
  have signal: "rate_limit_signal example_Decode (limited_round ''30'' (Some Canceled) TimerFired)
      = Some 30000000000"
    by (simp add: rate_limit_signal_def Client_List_def limited_round_def Header_Get_def
        Atoi_def isdigit_def digit_value_def Second_def)
  have cancelled: "ctx_Err (limited_round ''30'' (Some Canceled) TimerFired) = Some Canceled"
    by (simp add: limited_round_def)
  have same: "example_params\<lparr>ListParams.PageCursor := []\<rparr> = example_params"
    by (simp add: example_params_def)
  from cancelled_before_wait [OF pre signal cancelled, of "[ok_round ''page-1'' True]"]
    pre signal same
  show ?thesis by simp
qed

text \<open>
  Claim C6. If the fetch of \<open>r\<close> succeeds and the consumer answers the page with
  \<open>false\<close>, the iterator returns at once: the page is the last item yielded and its
  request the last request issued, whatever the next cursor of the response is and
  whatever \<open>rest\<close> is.
\<close>

theorem consumer_stops:
  assumes "for_loop dec params (ListParams.PageCursor params) pre = (evs, Continue c)"
    and "Client_List dec (list_result r) = Inr resp"
    and "\<not> yield_more r"
  shows "Client_ListPaginate dec params (pre @ r # rest) =
           Some (evs @ [Request (params\<lparr>ListParams.PageCursor := c\<rparr>),
                        Yield (Page resp) None])
         \<and> requests (evs @ [Request (params\<lparr>ListParams.PageCursor := c\<rparr>),
                             Yield (Page resp) None])
             = requests evs @ [params\<lparr>ListParams.PageCursor := c\<rparr>]
         \<and> yielded (evs @ [Request (params\<lparr>ListParams.PageCursor := c\<rparr>),
                            Yield (Page resp) None])
             = yielded evs @ [(Page resp, None)]"
proof -
  have "for_loop dec params c (r # rest) =
          ([Request (params\<lparr>ListParams.PageCursor := c\<rparr>), Yield (Page resp) None], Return)"
    by (rule for_loop_Cons_Return) (simp add: loop_body_success [OF assms(2)] assms(3))
  with for_loop_append_Continue [OF assms(1), of "r # rest"]
  show ?thesis
    by (simp add: Client_ListPaginate_def yielded_append requests_append)
qed

theorem consumer_stops_witness:
  "for_loop example_Decode example_params (ListParams.PageCursor example_params) []
     = ([], Continue [])
   \<and> Client_List example_Decode (list_result (ok_round ''page-1'' False))
       = Inr (toListResponse wire_page1)
   \<and> ListResponse.NextPageCursor (toListResponse wire_page1) = ''cursor-2''
   \<and> \<not> yield_more (ok_round ''page-1'' False)
   \<and> Client_ListPaginate example_Decode example_params
       ([] @ ok_round ''page-1'' False # [ok_round ''page-2'' True])
     = Some [Request example_params, Yield (Page (toListResponse wire_page1)) None]"
proof -
  have pre: "for_loop example_Decode example_params (ListParams.PageCursor example_params) []
     = ([], Continue [])"
    by (simp add: example_params_def)
  have ok: "Client_List example_Decode (list_result (ok_round ''page-1'' False))
      = Inr (toListResponse wire_page1)"
    by (simp add: Client_List_def ok_round_def example_Decode_def)
  have stop: "\<not> yield_more (ok_round ''page-1'' False)"
    by (simp add: ok_round_def)
  have cur: "ListResponse.NextPageCursor (toListResponse wire_page1) = ''cursor-2''"
    by (simp add: toListResponse_def wire_page1_def)
  have same: "example_params\<lparr>ListParams.PageCursor := []\<rparr> = example_params"
    by (simp add: example_params_def)
  from consumer_stops [OF pre ok stop, of "[ok_round ''page-2'' True]"] pre ok stop cur same
  show ?thesis by simp
qed

section \<open>Properties of the single-page fetcher\<close>

lemma Atoi_error: "Atoi s = Inl e \<Longrightarrow> e = NumError s"
  by (auto simp: Atoi_def Let_def split: list.splits if_splits option.splits prod.splits)

lemma sint_Second: "sint Second = 1000000000"
  by (simp add: Second_def)

lemma sint_seconds:
  fixes n :: "64 word"
  shows "sint (n * Second) = sint n * 1000000000
           \<longleftrightarrow> - 9223372036 \<le> sint n \<and> sint n \<le> 9223372036"
proof -
  have "sint (n * Second) = signed_take_bit 63 (sint n * 1000000000)"
    by (simp add: sint_word_ariths sint_Second)
  moreover have "signed_take_bit 63 (sint n * 1000000000) = sint n * 1000000000
      \<longleftrightarrow> - (2 ^ 63) \<le> sint n * 1000000000 \<and> sint n * 1000000000 < 2 ^ 63"
    by (rule signed_take_bit_int_eq_self_iff)
  moreover have "- (2 ^ 63) \<le> sint n * 1000000000 \<and> sint n * 1000000000 < (2 ^ 63 :: int)
      \<longleftrightarrow> - 9223372036 \<le> sint n \<and> sint n \<le> 9223372036"
    by simp arith
  ultimately show ?thesis by simp
qed

lemma Client_List_429_malformed:
  assumes "StatusCode resp = 429"
    and "Atoi (Header_Get (Header resp) ''Retry-After'') = Inl e"
  shows "Client_List dec (Inr resp) = Inl (InvalidRetryAfter (Header_Get (Header resp) ''Retry-After'') e)"
  using assms by (simp add: Client_List_def)

lemma Client_List_429_signal:
  assumes "StatusCode resp = 429"
    and "Atoi (Header_Get (Header resp) ''Retry-After'') = Inr n"
  shows "Client_List dec (Inr resp) = Inl (ErrorRateLimited (n * Second))"
  using assms by (simp add: Client_List_def)

subsection \<open>Claim C5: the Retry-After header of a 429\<close>

text \<open>
  Claim C5, as the code has it. The request of round \<open>r\<close> is answered 429.
  \<^item> If \<open>strconv.Atoi\<close> rejects the \<open>Retry-After\<close> header, \<open>List\<close> fails with the
    malformed-header error, which carries the raw header value (and the error of
    \<open>Atoi\<close>) and in which \<open>errors.As\<close> finds no rate-limit signal; an iterator that
    stands at cursor \<open>c\<close> after the rounds \<open>pre\<close> and plays \<open>r\<close> next yields it as its
    last item and returns, whatever rounds would follow.
  \<^item> If the header parses as \<open>n\<close>, \<open>List\<close> returns the rate-limit signal whose
    duration is \<open>time.Duration(n) * time.Second\<close> in 64-bit arithmetic. That duration
    is \<open>n\<close> seconds exactly when \<open>-9223372036 \<le> n \<le> 9223372036\<close>: outside this range
    \<open>n\<close> seconds do not fit a \<open>time.Duration\<close> and the product wraps around.
  The claim as stated, a duration of \<open>n\<close> seconds for every \<open>n\<close> that parses, fails at
  the header \<open>9223372037\<close>, for which the signal carries a negative duration.
\<close>

theorem List_429_Retry_After:
  assumes "list_result r = Inr resp"
    and "StatusCode resp = 429"
  shows "case Atoi (Header_Get (Header resp) ''Retry-After'') of
           Inl e \<Rightarrow>
             Client_List dec (list_result r)
               = Inl (InvalidRetryAfter (Header_Get (Header resp) ''Retry-After'') e)
             \<and> as_ErrorRateLimited
                 (InvalidRetryAfter (Header_Get (Header resp) ''Retry-After'') e) = None
             \<and> (for_loop dec params (ListParams.PageCursor params) pre = (evs, Continue c) \<longrightarrow>
                  Client_ListPaginate dec params (pre @ r # rest)
                    = Some (evs @ [Request (params\<lparr>ListParams.PageCursor := c\<rparr>),
                         Yield empty_Page
                           (Some (InvalidRetryAfter (Header_Get (Header resp) ''Retry-After'') e))]))
         | Inr n \<Rightarrow>
             Client_List dec (list_result r) = Inl (ErrorRateLimited (n * Second))
             \<and> (sint (n * Second) = sint n * 1000000000
                  \<longleftrightarrow> - 9223372036 \<le> sint n \<and> sint n \<le> 9223372036)"
proof (cases "Atoi (Header_Get (Header resp) ''Retry-After'')")
  case (Inl e)
  let ?err = "InvalidRetryAfter (Header_Get (Header resp) ''Retry-After'') e"
  have fetch: "Client_List dec (list_result r) = Inl ?err"
    using assms Inl by (simp add: Client_List_429_malformed)
  have plain: "as_ErrorRateLimited ?err = None"
    using Atoi_error [OF Inl] by simp
  have last: "for_loop dec params c (r # rest) =
          ([Request (params\<lparr>ListParams.PageCursor := c\<rparr>), Yield empty_Page (Some ?err)],
           Return)"
    by (rule for_loop_Cons_Return) (rule loop_body_error [OF fetch plain])
  have "Client_ListPaginate dec params (pre @ r # rest)
          = Some (evs @ [Request (params\<lparr>ListParams.PageCursor := c\<rparr>),
                         Yield empty_Page (Some ?err)])"
    if "for_loop dec params (ListParams.PageCursor params) pre = (evs, Continue c)"
    using for_loop_append_Continue [OF that, of "r # rest"] last
    by (simp add: Client_ListPaginate_def)
  with fetch plain Inl show ?thesis by simp
next
  case (Inr n)
  with assms show ?thesis
    by (simp add: Client_List_429_signal sint_seconds)
qed

theorem List_429_Retry_After_witness:
  "for_loop example_Decode example_params (ListParams.PageCursor example_params) []
     = ([], Continue [])
   \<and> StatusCode \<lparr> StatusCode = 429, Header = [(''Retry-After'', [''abc''])], Body = [] \<rparr> = 429
   \<and> Atoi ''abc'' = Inl (NumError ''abc'')
   \<and> Client_List example_Decode (list_result (limited_round ''abc'' None TimerFired))
       = Inl (InvalidRetryAfter ''abc'' (NumError ''abc''))
   \<and> Client_ListPaginate example_Decode example_params
       ([] @ limited_round ''abc'' None TimerFired # [ok_round ''page-1'' True])
       = Some [Request example_params,
               Yield empty_Page (Some (InvalidRetryAfter ''abc'' (NumError ''abc'')))]
   \<and> Atoi ''2'' = Inr 2
   \<and> Client_List example_Decode (list_result (limited_round ''2'' None TimerFired))
       = Inl (ErrorRateLimited (2 * Second))
   \<and> sint (2 * Second) = 2 * 1000000000"
proof -
  have pre: "for_loop example_Decode example_params (ListParams.PageCursor example_params) []
     = ([], Continue [])"
    by (simp add: example_params_def)
  have same: "example_params\<lparr>ListParams.PageCursor := []\<rparr> = example_params"
    by (simp add: example_params_def)
  have abc: "Atoi ''abc'' = Inl (NumError ''abc'')"
    by (simp add: Atoi_def isdigit_def)
  have two: "Atoi ''2'' = Inr 2"
    by (simp add: Atoi_def isdigit_def digit_value_def)
  have r: "list_result (limited_round h None TimerFired)
      = Inr \<lparr> StatusCode = 429, Header = [(''Retry-After'', [h])], Body = [] \<rparr>" for h
    by (simp add: limited_round_def)
  have h: "Header_Get [(''Retry-After'', [h])] ''Retry-After'' = h" for h
    by (simp add: Header_Get_def)
  from List_429_Retry_After [OF r [of "''abc''"], where dec = example_Decode
      and params = example_params and pre = "[]" and evs = "[]" and c = "[]"
      and rest = "[ok_round ''page-1'' True]"]
    List_429_Retry_After [OF r [of "''2''"], where dec = example_Decode]
  show ?thesis
    by (simp add: h abc two same r) (simp add: example_params_def)
qed

theorem List_429_overflow_counterexample:
  "Atoi ''9223372037'' = Inr 9223372037
   \<and> sint (9223372037 :: 64 word) = 9223372037
   \<and> Client_List example_Decode (list_result (limited_round ''9223372037'' None TimerFired))
       = Inl (ErrorRateLimited (- 9223372036709551616))
   \<and> sint (- 9223372036709551616 :: 64 word) = - 9223372036709551616
   \<and> sint (- 9223372036709551616 :: 64 word) \<noteq> 9223372037 * 1000000000"
  by (simp add: Client_List_def limited_round_def Header_Get_def Atoi_def isdigit_def
      digit_value_def Second_def)

subsection \<open>Claim C9: zero and negative Retry-After values\<close>

text \<open>
  Claim C9, as the code has it. On a 429 whose \<open>Retry-After\<close> header \<open>strconv.Atoi\<close>
  accepts as \<open>n\<close> (zero and negative integers are accepted, as the instances \<open>0\<close> and
  \<open>-5\<close> below show), \<open>List\<close> returns a rate-limit signal and not an error of another
  kind; the duration of the signal is \<open>n\<close> seconds exactly when
  \<open>-9223372036 \<le> n \<le> 9223372036\<close>. For a non-positive \<open>n\<close> in that range the duration
  is non-positive, and if the caller is not cancelled and the timer case of the
  \<open>select\<close> fires, the iterator waits on that duration and goes on with a request at
  the same cursor: it retries and does not fail.
  The claim as stated fails at the header \<open>-9223372037\<close>: the product wraps around to
  a positive duration of more than 292 years, which is neither \<open>n\<close> seconds nor a wait
  of no length.
\<close>

theorem nonpositive_Retry_After:
  assumes "list_result r = Inr resp"
    and "StatusCode resp = 429"
    and "Atoi (Header_Get (Header resp) ''Retry-After'') = Inr n"
  shows "Client_List dec (list_result r) = Inl (ErrorRateLimited (n * Second))
         \<and> rate_limit_signal dec r = Some (n * Second)
         \<and> (sint (n * Second) = sint n * 1000000000
              \<longleftrightarrow> - 9223372036 \<le> sint n \<and> sint n \<le> 9223372036)
         \<and> (- 9223372036 \<le> sint n \<and> sint n \<le> 0 \<longrightarrow> sint (n * Second) \<le> 0)
         \<and> (ctx_Err r = None \<and> select r = TimerFired \<longrightarrow>
              for_loop dec params c (r # rest) =
                (Request (params\<lparr>ListParams.PageCursor := c\<rparr>) # Wait (n * Second)
                   # fst (for_loop dec params c rest),
                 snd (for_loop dec params c rest)))"
proof -
  have fetch: "Client_List dec (list_result r) = Inl (ErrorRateLimited (n * Second))"
    using assms by (simp add: Client_List_429_signal)
  then have signal: "rate_limit_signal dec r = Some (n * Second)"
    by (simp add: rate_limit_signal_def)
  have small: "sint (n * Second) \<le> 0" if "- 9223372036 \<le> sint n \<and> sint n \<le> 0"
  proof -
    from that have "sint (n * Second) = sint n * 1000000000"
      by (simp add: sint_seconds)
    with that show ?thesis by simp
  qed
  have retry: "for_loop dec params c (r # rest) =
      (Request (params\<lparr>ListParams.PageCursor := c\<rparr>) # Wait (n * Second)
         # fst (for_loop dec params c rest),
       snd (for_loop dec params c rest))"
    if "ctx_Err r = None \<and> select r = TimerFired"
    using for_loop_Cons_Continue [OF loop_body_retry [OF signal], of params c rest] that
    by simp
  from fetch signal small retry show ?thesis
    by (simp add: sint_seconds)
qed

theorem nonpositive_Retry_After_witness:
  "Atoi ''-5'' = Inr (- 5)
   \<and> Client_List example_Decode (list_result (limited_round ''-5'' None TimerFired))
       = Inl (ErrorRateLimited (- 5 * Second))
   \<and> sint (- 5 * Second) = - 5000000000
   \<and> for_loop example_Decode example_params ''cursor-2''
       [limited_round ''-5'' None TimerFired, ok_round ''page-2'' True]
     = ([Request (example_params\<lparr>ListParams.PageCursor := ''cursor-2''\<rparr>), Wait (- 5 * Second),
         Request (example_params\<lparr>ListParams.PageCursor := ''cursor-2''\<rparr>),
         Yield (Page (toListResponse wire_page2)) None], Return)
   \<and> Atoi ''0'' = Inr 0
   \<and> rate_limit_signal example_Decode (limited_round ''0'' None TimerFired) = Some (0 * Second)"
proof -
  have minus5: "Atoi ''-5'' = Inr (- 5)"
    by (simp add: Atoi_def isdigit_def digit_value_def)
  have zero: "Atoi ''0'' = Inr 0"
    by (simp add: Atoi_def isdigit_def digit_value_def)
  have r: "list_result (limited_round h None TimerFired)
      = Inr \<lparr> StatusCode = 429, Header = [(''Retry-After'', [h])], Body = [] \<rparr>" for h
    by (simp add: limited_round_def)
  have h: "Header_Get (Header \<lparr> StatusCode = 429, Header = [(''Retry-After'', [h])], Body = [] \<rparr>)
      ''Retry-After'' = h" for h
    by (simp add: Header_Get_def)
  have live: "ctx_Err (limited_round h None TimerFired) = None"
    "select (limited_round h None TimerFired) = TimerFired" for h
    by (simp_all add: limited_round_def)
  have page2: "for_loop example_Decode example_params ''cursor-2'' [ok_round ''page-2'' True]
      = ([Request (example_params\<lparr>ListParams.PageCursor := ''cursor-2''\<rparr>),
          Yield (Page (toListResponse wire_page2)) None], Return)"
    by (simp add: loop_body_def Client_List_def ok_round_def example_Decode_def
        toListResponse_def wire_page2_def)
  have status: "StatusCode \<lparr> StatusCode = 429, Header = [(''Retry-After'', [h])], Body = [] \<rparr> = 429"
    for h :: string
    by simp
  have atoi5: "Atoi (Header_Get (Header \<lparr> StatusCode = 429, Header = [(''Retry-After'', [''-5''])],
      Body = [] \<rparr>) ''Retry-After'') = Inr (- 5)"
    by (simp only: h minus5)
  have atoi0: "Atoi (Header_Get (Header \<lparr> StatusCode = 429, Header = [(''Retry-After'', [''0''])],
      Body = [] \<rparr>) ''Retry-After'') = Inr 0"
    by (simp only: h zero)
  from nonpositive_Retry_After [OF r status atoi5, where dec = example_Decode
      and params = example_params and c = "''cursor-2''" and rest = "[ok_round ''page-2'' True]"]
    nonpositive_Retry_After [OF r status atoi0, where dec = example_Decode]
  show ?thesis
    by (simp del: for_loop.simps add: minus5 zero live page2)
qed

theorem nonpositive_Retry_After_counterexample:
  "Atoi ''-9223372037'' = Inr (- 9223372037)
   \<and> sint (- 9223372037 :: 64 word) = - 9223372037
   \<and> rate_limit_signal example_Decode (limited_round ''-9223372037'' None TimerFired)
       = Some 9223372036709551616
   \<and> sint (9223372036709551616 :: 64 word) = 9223372036709551616
   \<and> sint (9223372036709551616 :: 64 word) \<noteq> - 9223372037 * 1000000000"
  by (simp add: rate_limit_signal_def Client_List_def limited_round_def Header_Get_def Atoi_def
      isdigit_def digit_value_def Second_def)

section \<open>Properties of the published-date decoder\<close>

subsection \<open>Epoch milliseconds\<close>

lemma sdiv_smod_1000:
  fixes m :: int
  shows "0 \<le> m \<Longrightarrow> m sdiv 1000 = m div 1000 \<and> m smod 1000 = m mod 1000"
    and "m < 0 \<Longrightarrow> m sdiv 1000 = - ((- m) div 1000) \<and> m smod 1000 = - ((- m) mod 1000)"
  by (simp_all add: signed_divide_int_def signed_modulo_int_def sgn_if)

lemma Unix_normal:
  assumes "0 \<le> ns" and "ns < 1000000000"
  shows "Unix s ns = \<lparr> sec = s + unixToInternal, nsec = ns, loc = Local \<rparr>"
  using assms by (simp add: Unix_def)

lemma Unix_negative:
  assumes "- 1000000000 < ns" and "ns < 0"
  shows "Unix s ns = \<lparr> sec = s - 1 + unixToInternal, nsec = ns + 1000000000, loc = Local \<rparr>"
proof -
  from assms have "ns sdiv 1000000000 = 0"
    by (simp add: signed_divide_int_def sgn_if)
  with assms show ?thesis
    by (simp add: Unix_def)
qed

lemma UnixMilli_nonneg:
  assumes "0 \<le> sint msec"
  shows "UnixMilli msec =
           \<lparr> sec = sint msec div 1000 + unixToInternal,
             nsec = (sint msec mod 1000) * 1000000, loc = Local \<rparr>"
proof -
  have "0 \<le> sint msec mod 1000" and "sint msec mod 1000 < 1000"
    by simp_all
  then have "0 \<le> (sint msec mod 1000) * 1000000"
    and "(sint msec mod 1000) * 1000000 < 1000000000"
    by linarith+
  from Unix_normal [OF this] sdiv_smod_1000(1) [OF assms] show ?thesis
    by (simp add: UnixMilli_def)
qed

lemma UnixMilli_negative_whole:
  assumes "sint msec < 0" and "(- sint msec) mod 1000 = 0"
  shows "UnixMilli msec =
           \<lparr> sec = - ((- sint msec) div 1000) + unixToInternal, nsec = 0, loc = Local \<rparr>"
  using assms(2) Unix_normal [of 0] sdiv_smod_1000(2) [OF assms(1)]
  by (simp add: UnixMilli_def)

lemma UnixMilli_negative_part:
  assumes "sint msec < 0" and "(- sint msec) mod 1000 \<noteq> 0"
  shows "UnixMilli msec =
           \<lparr> sec = - ((- sint msec) div 1000) - 1 + unixToInternal,
             nsec = 1000000000 - ((- sint msec) mod 1000) * 1000000, loc = Local \<rparr>"
proof -
  define r where "r = (- sint msec) mod 1000"
  have "0 \<le> r" and "r < 1000"
    by (simp_all add: r_def)
  with assms(2) have "0 < r"
    by (simp add: r_def)
  with \<open>r < 1000\<close> have "- 1000000000 < - (r * 1000000)" and "- (r * 1000000) < 0"
    by linarith+
  from Unix_negative [OF this] sdiv_smod_1000(2) [OF assms(1)] show ?thesis
    by (simp add: UnixMilli_def r_def)
qed

lemma UnixMilli_instant:
  "unix_milli (UnixMilli msec) = sint msec
   \<and> 0 \<le> nsec (UnixMilli msec) \<and> nsec (UnixMilli msec) < 1000000000
   \<and> loc (UnixMilli msec) = Local"
proof (cases "0 \<le> sint msec")
  case True
  have "0 \<le> sint msec mod 1000" and "sint msec mod 1000 < 1000"
    by simp_all
  then have "0 \<le> (sint msec mod 1000) * 1000000"
    and "(sint msec mod 1000) * 1000000 < 1000000000"
    by linarith+
  with True show ?thesis
    by (simp add: UnixMilli_nonneg unix_milli_def)
next
  case False
  then have neg: "sint msec < 0" by simp
  define r where "r = (- sint msec) mod 1000"
  define q where "q = (- sint msec) div 1000"
  have m: "sint msec = - (q * 1000 + r)"
    by (simp add: q_def r_def)
  have r: "0 \<le> r" "r < 1000"
    by (simp_all add: r_def)
  show ?thesis
  proof (cases "r = 0")
    case True
    with neg have "UnixMilli msec = \<lparr> sec = - q + unixToInternal, nsec = 0, loc = Local \<rparr>"
      by (simp add: UnixMilli_negative_whole r_def q_def)
    with m True show ?thesis
      by (simp add: unix_milli_def)
  next
    case False
    with neg have t: "UnixMilli msec =
        \<lparr> sec = - q - 1 + unixToInternal, nsec = 1000000000 - r * 1000000, loc = Local \<rparr>"
      by (simp add: UnixMilli_negative_part r_def q_def)
    have "1000000000 - r * 1000000 = (1000 - r) * 1000000"
      by (simp add: algebra_simps)
    then have d: "(1000000000 - r * 1000000) div 1000000 = 1000 - r"
      by simp
    from r False have "0 \<le> 1000000000 - r * 1000000" "1000000000 - r * 1000000 < 1000000000"
      by linarith+
    with t d m show ?thesis
      by (simp add: unix_milli_def)
  qed
qed

lemma UnixMilli_IsZero:
  "IsZero (UnixMilli msec) \<longleftrightarrow> sint msec = - 62135596800000"
proof
  assume z: "IsZero (UnixMilli msec)"
  from UnixMilli_instant [of msec] have "unix_milli (UnixMilli msec) = sint msec"
    by simp
  with z show "sint msec = - 62135596800000"
    by (simp add: IsZero_def unix_milli_def unixToInternal_def)
next
  assume m: "sint msec = - 62135596800000"
  then have "UnixMilli msec = \<lparr> sec = 0, nsec = 0, loc = Local \<rparr>"
    by (simp add: UnixMilli_negative_whole unixToInternal_def)
  then show "IsZero (UnixMilli msec)"
    by (simp add: IsZero_def)
qed

lemma int64_of_float64_in_range:
  assumes "- (2 ^ 63) \<le> trunc_float64 x" and "trunc_float64 x < 2 ^ 63"
  shows "sint (int64_of_float64 f x) = trunc_float64 x"
  using assms
  by (simp add: int64_of_float64_def sint_sbintrunc' signed_take_bit_int_eq_self)

lemma int64_of_float64_int:
  assumes "- (2 ^ 63) \<le> m" and "m < 2 ^ 63"
  shows "int64_of_float64 f (of_int m) = word_of_int m"
    and "sint (word_of_int m :: 64 word) = m"
proof -
  from assms show "int64_of_float64 f (of_int m) = word_of_int m"
    by (simp add: int64_of_float64_def trunc_float64_def)
  from assms show "sint (word_of_int m :: 64 word) = m"
    by (simp add: sint_sbintrunc' signed_take_bit_int_eq_self)
qed

subsection \<open>Dates\<close>

lemma digit_char:
  assumes "0 \<le> k" and "k \<le> 9"
  shows "isdigit (digit_char k)" and "digit_value (digit_char k) = k"
proof -
  from assms have "(48 + k) mod 256 = 48 + k"
    by simp
  then have "(of_char (digit_char k) :: int) = 48 + k"
    by (simp add: digit_char_def)
  with assms show "isdigit (digit_char k)" and "digit_value (digit_char k) = k"
    by (simp_all add: isdigit_def digit_value_def)
qed

lemma int_range_step:
  fixes m :: int
  shows "(a \<le> m \<and> m \<le> b) \<longleftrightarrow> (if a \<le> b then m = a \<or> (a + 1 \<le> m \<and> m \<le> b) else False)"
  by auto

lemma month_cases:
  fixes m :: int
  assumes "1 \<le> m" and "m \<le> 12"
  shows "m = 1 \<or> m = 2 \<or> m = 3 \<or> m = 4 \<or> m = 5 \<or> m = 6 \<or> m = 7 \<or> m = 8 \<or> m = 9
         \<or> m = 10 \<or> m = 11 \<or> m = 12"
proof -
  from assms have "1 \<le> m \<and> m \<le> 12" by simp
  then show ?thesis
    by (simp add: int_range_step)
qed

lemma daysBefore_values:
  "daysBefore 1 = 0" "daysBefore 2 = 31" "daysBefore 3 = 59" "daysBefore 4 = 90"
  "daysBefore 5 = 120" "daysBefore 6 = 151" "daysBefore 7 = 181" "daysBefore 8 = 212"
  "daysBefore 9 = 243" "daysBefore 10 = 273" "daysBefore 11 = 304" "daysBefore 12 = 334"
  "daysBefore 13 = 365"
  by (simp_all add: daysBefore_def)

lemma daysIn_values:
  "daysIn 1 y = 31" "daysIn 2 y = (if isLeap y then 29 else 28)" "daysIn 3 y = 31"
  "daysIn 4 y = 30" "daysIn 5 y = 31" "daysIn 6 y = 30" "daysIn 7 y = 31" "daysIn 8 y = 31"
  "daysIn 9 y = 30" "daysIn 10 y = 31" "daysIn 11 y = 30" "daysIn 12 y = 31"
  by (simp_all add: daysIn_def daysBefore_values)

lemma day_of_year:
  assumes "1 \<le> m" and "m \<le> 12" and "1 \<le> d" and "d \<le> daysIn m y"
  shows "0 \<le> daysBefore m + (if isLeap y \<and> 3 \<le> m then 1 else 0) + (d - 1)"
    and "daysBefore m + (if isLeap y \<and> 3 \<le> m then 1 else 0) + (d - 1) \<le> 365"
    and "daysBefore m + (if isLeap y \<and> 3 \<le> m then 1 else 0) + (d - 1) = 0 \<longleftrightarrow> m = 1 \<and> d = 1"
proof -
  let ?k = "daysBefore m + (if isLeap y \<and> 3 \<le> m then 1 else 0) + (d - 1)"
  have "0 \<le> ?k \<and> ?k \<le> 365 \<and> (?k = 0 \<longleftrightarrow> m = 1 \<and> d = 1)"
    using month_cases [OF assms(1,2)] assms(3,4)
    by (elim disjE) (simp_all add: daysIn_values daysBefore_values split: if_splits)
  then show "0 \<le> ?k" and "?k \<le> 365" and "?k = 0 \<longleftrightarrow> m = 1 \<and> d = 1"
    by simp_all
qed

lemma daysSinceYear1_bounds:
  "daysSinceYear1 0 = - 366" "daysSinceYear1 1 = 0" "2 \<le> y \<Longrightarrow> 365 \<le> daysSinceYear1 y"
proof -
  show "daysSinceYear1 0 = - 366" "daysSinceYear1 1 = 0"
    by (simp_all add: daysSinceYear1_def)
  assume y: "2 \<le> y"
  then have "(y - 1) div 100 \<le> (y - 1) div 4"
    by (intro zdiv_mono2) simp_all
  moreover from y have "0 \<le> (y - 1) div 400"
    by (simp add: pos_imp_zdiv_nonneg_iff)
  moreover from y have "365 \<le> 365 * (y - 1)"
    by simp
  ultimately show "365 \<le> daysSinceYear1 y"
    unfolding daysSinceYear1_def by linarith
qed

lemma Date_IsZero:
  assumes "valid_date y m d"
  shows "IsZero (Date y m d) \<longleftrightarrow> y = 1 \<and> m = 1 \<and> d = 1"
proof -
  define k where "k = daysBefore m + (if isLeap y \<and> 3 \<le> m then 1 else 0) + (d - 1)"
  from assms have md: "1 \<le> m" "m \<le> 12" "1 \<le> d" "d \<le> daysIn m y" and y: "0 \<le> y"
    by (simp_all add: valid_date_def)
  note k = day_of_year [OF md, folded k_def]
  define x where "x = daysSinceYear1 y + k"
  have "Date y m d = \<lparr> sec = x * 86400, nsec = 0, loc = UTC \<rparr>"
    by (simp only: Date_def k_def x_def Let_def add.assoc)
  then have "IsZero (Date y m d) \<longleftrightarrow> x = 0"
    by (simp add: IsZero_def)
  then have zero: "IsZero (Date y m d) \<longleftrightarrow> daysSinceYear1 y + k = 0"
    by (simp only: x_def)
  from y consider "y = 0" | "y = 1" | "2 \<le> y"
    by arith
  then show ?thesis
  proof cases
    case 1
    with k(2) show ?thesis
      unfolding zero by (simp add: daysSinceYear1_bounds)
  next
    case 2
    with k(3) show ?thesis
      unfolding zero by (simp add: daysSinceYear1_bounds)
  next
    case 3
    with daysSinceYear1_bounds(3) [OF 3] k(1) show ?thesis
      unfolding zero by simp
  qed
qed

lemma Date_1_1_1: "Date 1 1 1 = zero_Time"
  by (simp add: Date_def zero_Time_def daysSinceYear1_def daysBefore_def isLeap_def)

lemma four_digits:
  fixes y :: int
  assumes "0 \<le> y" and "y \<le> 9999"
  shows "((y div 1000 * 10 + y div 100 mod 10) * 10 + y div 10 mod 10) * 10 + y mod 10 = y"
    and "0 \<le> y div 1000" and "y div 1000 \<le> 9"
proof -
  have a: "y div 100 = (y div 1000) * 10 + y div 100 mod 10"
    using div_mult_mod_eq [of "y div 100" 10] by (simp add: zdiv_zmult2_eq [symmetric])
  have b: "y div 10 = (y div 100) * 10 + y div 10 mod 10"
    using div_mult_mod_eq [of "y div 10" 10] by (simp add: zdiv_zmult2_eq [symmetric])
  have c: "y = (y div 10) * 10 + y mod 10"
    by simp
  show "((y div 1000 * 10 + y div 100 mod 10) * 10 + y div 10 mod 10) * 10 + y mod 10 = y"
    using a b c by simp
  from assms show "0 \<le> y div 1000" and "y div 1000 \<le> 9"
    by simp_all
qed

lemma two_digits:
  fixes m :: int
  assumes "0 \<le> m" and "m \<le> 99"
  shows "m div 10 * 10 + m mod 10 = m" and "0 \<le> m div 10" and "m div 10 \<le> 9"
  using assms by simp_all

lemma mod_10_digit:
  fixes k :: int
  shows "0 \<le> k mod 10" and "k mod 10 \<le> 9"
proof -
  show "0 \<le> k mod 10" by simp
  have "k mod 10 < 10" by simp
  then show "k mod 10 \<le> 9" by linarith
qed

lemma daysIn_le_31:
  assumes "1 \<le> m" and "m \<le> 12"
  shows "daysIn m y \<le> 31"
  using month_cases [OF assms] by (auto simp: daysIn_def daysBefore_values)

lemma decimal_4:
  assumes "isdigit a" and "isdigit b" and "isdigit c" and "isdigit e"
  shows "decimal 0 [a, b, c, e]
           = Some (((digit_value a * 10 + digit_value b) * 10 + digit_value c) * 10 + digit_value e)"
  using assms by simp

lemma Parse_date_format_date:
  assumes "valid_date y m d"
  shows "Parse_date (format_date y m d) = Inr (Date y m d)"
proof -
  from assms have y: "0 \<le> y" "y \<le> 9999" and m: "1 \<le> m" "m \<le> 12"
    and d: "1 \<le> d" "d \<le> daysIn m y"
    by (simp_all add: valid_date_def)
  from d daysIn_le_31 [OF m, of y] have d99: "0 \<le> d" "d \<le> 99" by simp_all
  from m have m99: "0 \<le> m" "m \<le> 99" by simp_all
  note yd = four_digits [OF y]
  note md = two_digits [OF m99]
  note dd = two_digits [OF d99]
  have "decimal 0 (take 4 (format_date y m d))
      = Some (((y div 1000 * 10 + y div 100 mod 10) * 10 + y div 10 mod 10) * 10 + y mod 10)"
    unfolding format_date_def
    by (simp add: decimal_4 digit_char yd(2,3) mod_10_digit del: decimal.simps)
  then have year: "decimal 0 (take 4 (format_date y m d)) = Some y"
    by (simp only: yd(1))
  have first: "isDigit (format_date y m d) 0"
    by (simp add: format_date_def isDigit_def digit_char yd)
  have rest: "skip (drop 4 (format_date y m d)) CHR ''-''
      = Some [digit_char (m div 10), digit_char (m mod 10), CHR ''-'',
              digit_char (d div 10), digit_char (d mod 10)]"
    by (simp add: format_date_def skip_def)
  have month: "getnum [digit_char (m div 10), digit_char (m mod 10), CHR ''-'',
              digit_char (d div 10), digit_char (d mod 10)]
      = Some (m, [CHR ''-'', digit_char (d div 10), digit_char (d mod 10)])"
    by (simp add: getnum_def isDigit_def digit_char md mod_10_digit)
  have day: "getnum [digit_char (d div 10), digit_char (d mod 10)] = Some (d, [])"
    by (simp add: getnum_def isDigit_def digit_char dd mod_10_digit)
  have len: "length (format_date y m d) = 10"
    by (simp add: format_date_def)
  have dash: "skip [CHR ''-'', digit_char (d div 10), digit_char (d mod 10)] CHR ''-''
      = Some [digit_char (d div 10), digit_char (d mod 10)]"
    by (simp add: skip_def)
  from m d show ?thesis
    by (simp add: Parse_date_def len first year rest month dash day)
qed

subsection \<open>Strings that time.Parse rejects\<close>

lemma Parse_date_error: "Parse_date s = Inl e \<Longrightarrow> e = ParseError s"
  by (auto simp: Parse_date_def split: if_splits option.splits)

lemma skip_Some: "skip s c = Some s' \<Longrightarrow> s = c # s'"
  by (auto simp: skip_def split: list.splits if_splits)

lemma getnum_Some:
  assumes "getnum s = Some (n, s')"
  shows "\<exists>a b. s = a # b # s' \<and> isdigit a \<and> isdigit b"
proof -
  from assms have d: "isDigit s 0" "isDigit s 1" and s': "s' = drop 2 s"
    by (auto simp: getnum_def split: if_splits)
  from d(2) obtain a b rest where s: "s = a # b # rest"
    by (cases s; cases "tl s") (auto simp: isDigit_def)
  with d s' show ?thesis
    by (simp add: isDigit_def)
qed

lemma decimal_digits: "decimal n s = Some m \<Longrightarrow> list_all isdigit s"
  by (induction s arbitrary: n) (auto split: if_splits)

lemma length_4:
  assumes "length xs = 4"
  shows "\<exists>p q r t. xs = [p, q, r, t]"
  using assms by (auto simp: length_Suc_conv numeral_eq_Suc)

lemma Parse_date_shape:
  assumes "Parse_date s = Inr t"
  shows "layout_shape s"
proof -
  from assms obtain year s1 month s2 s3 day
    where len: "4 \<le> length s"
      and year: "decimal 0 (take 4 s) = Some year"
      and dash1: "skip (drop 4 s) CHR ''-'' = Some s1"
      and month: "getnum s1 = Some (month, s2)"
      and dash2: "skip s2 CHR ''-'' = Some s3"
      and day: "getnum s3 = Some (day, [])"
    by (auto simp: Parse_date_def split: if_splits option.splits)
  from len have "length (take 4 s) = 4" by simp
  then obtain p q r u where front: "take 4 s = [p, q, r, u]"
    using length_4 by blast
  with decimal_digits [OF year] have digits: "isdigit p" "isdigit q" "isdigit r" "isdigit u"
    by simp_all
  from getnum_Some [OF day] obtain c e where s3: "s3 = [c, e]" and ce: "isdigit c" "isdigit e"
    by auto
  from getnum_Some [OF month] obtain a b where s1: "s1 = a # b # s2" and ab: "isdigit a" "isdigit b"
    by auto
  from skip_Some [OF dash2] s3 have s2: "s2 = [CHR ''-'', c, e]"
    by simp
  from skip_Some [OF dash1] s1 s2 have rear: "drop 4 s = [CHR ''-'', a, b, CHR ''-'', c, e]"
    by simp
  have "s = take 4 s @ drop 4 s" by simp
  with front rear have "s = [p, q, r, u, CHR ''-'', a, b, CHR ''-'', c, e]"
    by simp
  with digits ab ce show ?thesis
    by (simp add: layout_shape_def)
qed

lemma example_Unmarshal_string:
  "example_Unmarshal (CHR 0x22 # s @ [CHR 0x22]) = Inr (JString s)"
  by (simp add: example_Unmarshal_def)

subsection \<open>Strings that time.Parse accepts\<close>

lemma isdigit_digit_char:
  assumes "isdigit c"
  shows "0 \<le> digit_value c" and "digit_value c \<le> 9" and "c = digit_char (digit_value c)"
proof -
  from assms show "0 \<le> digit_value c" and "digit_value c \<le> 9"
    by (simp_all add: isdigit_def digit_value_def)
  have "digit_char (digit_value c) = char_of (of_char c :: int)"
    by (simp add: digit_char_def digit_value_def)
  then show "c = digit_char (digit_value c)"
    by simp
qed

lemma Parse_date_Inr:
  assumes "Parse_date s = Inr t"
  shows "\<exists>p q r u a b c e.
           s = [p, q, r, u, CHR ''-'', a, b, CHR ''-'', c, e]
           \<and> isdigit p \<and> isdigit q \<and> isdigit r \<and> isdigit u
           \<and> isdigit a \<and> isdigit b \<and> isdigit c \<and> isdigit e
           \<and> valid_date
               (((digit_value p * 10 + digit_value q) * 10 + digit_value r) * 10 + digit_value u)
               (digit_value a * 10 + digit_value b) (digit_value c * 10 + digit_value e)
           \<and> t = Date
               (((digit_value p * 10 + digit_value q) * 10 + digit_value r) * 10 + digit_value u)
               (digit_value a * 10 + digit_value b) (digit_value c * 10 + digit_value e)"
proof -
  from Parse_date_shape [OF assms] have len: "length s = 10"
    by (simp add: layout_shape_def)
  then obtain p q r u x5 a b x8 c e where s: "s = [p, q, r, u, x5, a, b, x8, c, e]"
    by (auto simp: length_Suc_conv numeral_eq_Suc)
  with Parse_date_shape [OF assms] have dash: "x5 = CHR ''-''" "x8 = CHR ''-''"
    and dig: "isdigit p" "isdigit q" "isdigit r" "isdigit u"
      "isdigit a" "isdigit b" "isdigit c" "isdigit e"
    by (simp_all add: layout_shape_def)
  let ?y = "((digit_value p * 10 + digit_value q) * 10 + digit_value r) * 10 + digit_value u"
  let ?m = "digit_value a * 10 + digit_value b"
  let ?d = "digit_value c * 10 + digit_value e"
  have year: "decimal 0 (take 4 s) = Some ?y"
    using dig by (simp add: s)
  have first: "isDigit s 0" "\<not> length s < 4"
    using dig by (simp_all add: s isDigit_def)
  have rest: "skip (drop 4 s) CHR ''-'' = Some [a, b, CHR ''-'', c, e]"
    by (simp add: s dash skip_def)
  have month: "getnum [a, b, CHR ''-'', c, e] = Some (?m, [CHR ''-'', c, e])"
    using dig by (simp add: getnum_def isDigit_def)
  have dash2: "skip [CHR ''-'', c, e] CHR ''-'' = Some [c, e]"
    by (simp add: skip_def)
  have day: "getnum [c, e] = Some (?d, [])"
    using dig by (simp add: getnum_def isDigit_def)
  from assms have ok: "1 \<le> ?m \<and> ?m \<le> 12 \<and> 1 \<le> ?d \<and> ?d \<le> daysIn ?m ?y \<and> t = Date ?y ?m ?d"
    unfolding Parse_date_def
    by (simp only: first year rest month dash2 day if_False simp_thms option.case prod.case
        split: if_splits) (auto split: if_splits)
  note b = isdigit_digit_char(1,2) [OF dig(1)] isdigit_digit_char(1,2) [OF dig(2)]
    isdigit_digit_char(1,2) [OF dig(3)] isdigit_digit_char(1,2) [OF dig(4)]
  from b have "0 \<le> ?y" and "?y \<le> 9999"
    by (simp_all add: algebra_simps)
  with ok have "valid_date ?y ?m ?d"
    by (simp add: valid_date_def)
  with s dash dig ok show ?thesis
    by blast
qed

lemma two_digits_of_one:
  fixes va vb :: int
  assumes "0 \<le> va" "0 \<le> vb" and "va * 10 + vb = 1"
  shows "va = 0 \<and> vb = 1"
proof -
  from assms have "va < 1" by linarith
  with assms(1) have "va = 0" by linarith
  with assms(3) show ?thesis by simp
qed

lemma sum_of_zero:
  fixes x y :: int
  assumes "0 \<le> x" "0 \<le> y" and "x * 10 + y = 0"
  shows "x = 0 \<and> y = 0"
  using assms by linarith

lemma digits_of_one:
  fixes vp vq vr vu :: int
  assumes "0 \<le> vp" "0 \<le> vq" "0 \<le> vr" "0 \<le> vu"
    and "((vp * 10 + vq) * 10 + vr) * 10 + vu = 1"
  shows "vp = 0 \<and> vq = 0 \<and> vr = 0 \<and> vu = 1"
proof -
  from assms have "0 \<le> (vp * 10 + vq) * 10 + vr" by simp
  from two_digits_of_one [OF this assms(4,5)]
  have a: "(vp * 10 + vq) * 10 + vr = 0" and u: "vu = 1" by simp_all
  from assms have "0 \<le> vp * 10 + vq" by simp
  from sum_of_zero [OF this assms(3) a] have b: "vp * 10 + vq = 0" and r: "vr = 0"
    by simp_all
  from sum_of_zero [OF assms(1,2) b] r u show ?thesis by simp
qed

lemma digit_char_0_1: "digit_char 0 = CHR ''0''" "digit_char 1 = CHR ''1''"
  by (simp_all add: digit_char_def char_of_def)

lemma Parse_date_0001_01_01: "Parse_date ''0001-01-01'' = Inr zero_Time"
proof -
  have fmt: "format_date 1 1 1 = ''0001-01-01''"
    by (simp add: format_date_def digit_char_def char_of_def)
  have valid: "valid_date 1 1 1"
    by (simp add: valid_date_def daysIn_def isLeap_def daysBefore_def)
  have "Parse_date (format_date 1 1 1) = Inr (Date 1 1 1)"
    by (rule Parse_date_format_date [OF valid])
  then show ?thesis
    by (simp only: fmt Date_1_1_1)
qed

lemma Parse_date_IsZero:
  assumes "Parse_date s = Inr t"
  shows "IsZero t \<longleftrightarrow> s = ''0001-01-01''"
proof
  assume "s = ''0001-01-01''"
  with assms Parse_date_0001_01_01 have "t = zero_Time" by simp
  then show "IsZero t" by (simp add: IsZero_def zero_Time_def)
next
  assume z: "IsZero t"
  from Parse_date_Inr [OF assms] obtain p q r u a b c e
    where s: "s = [p, q, r, u, CHR ''-'', a, b, CHR ''-'', c, e]"
      and dig: "isdigit p" "isdigit q" "isdigit r" "isdigit u"
        "isdigit a" "isdigit b" "isdigit c" "isdigit e"
      and valid: "valid_date
               (((digit_value p * 10 + digit_value q) * 10 + digit_value r) * 10 + digit_value u)
               (digit_value a * 10 + digit_value b) (digit_value c * 10 + digit_value e)"
      and t: "t = Date
               (((digit_value p * 10 + digit_value q) * 10 + digit_value r) * 10 + digit_value u)
               (digit_value a * 10 + digit_value b) (digit_value c * 10 + digit_value e)"
    by blast
  from z t Date_IsZero [OF valid]
  have y: "((digit_value p * 10 + digit_value q) * 10 + digit_value r) * 10 + digit_value u = 1"
    and m: "digit_value a * 10 + digit_value b = 1"
    and d: "digit_value c * 10 + digit_value e = 1"
    by simp_all
  have "digit_value p = 0 \<and> digit_value q = 0 \<and> digit_value r = 0 \<and> digit_value u = 1"
    by (rule digits_of_one [OF _ _ _ _ y]) (simp_all add: isdigit_digit_char dig)
  moreover have "digit_value a = 0 \<and> digit_value b = 1"
    by (rule two_digits_of_one [OF _ _ m]) (simp_all add: isdigit_digit_char dig)
  moreover have "digit_value c = 0 \<and> digit_value e = 1"
    by (rule two_digits_of_one [OF _ _ d]) (simp_all add: isdigit_digit_char dig)
  ultimately have "p = CHR ''0''" "q = CHR ''0''" "r = CHR ''0''" "u = CHR ''1''"
    "a = CHR ''0''" "b = CHR ''1''" "c = CHR ''0''" "e = CHR ''1''"
    using isdigit_digit_char(3) [OF dig(1)] isdigit_digit_char(3) [OF dig(2)]
      isdigit_digit_char(3) [OF dig(3)] isdigit_digit_char(3) [OF dig(4)]
      isdigit_digit_char(3) [OF dig(5)] isdigit_digit_char(3) [OF dig(6)]
      isdigit_digit_char(3) [OF dig(7)] isdigit_digit_char(3) [OF dig(8)]
    by (simp_all add: digit_char_0_1)
  with s show "s = ''0001-01-01''" by simp
qed

subsection \<open>Claim C7: numbers, date strings and null\<close>

text \<open>
  Claim C7, as the code has it.
  \<^item> A JSON number reaches the decoder as the \<open>float64\<close> value \<open>x\<close> that
    \<open>json.Unmarshal\<close> read. Whatever \<open>x\<close> is, the decoder returns no error and stores
    \<open>time.UnixMilli(int64(x))\<close>: a time with its nanoseconds in \<open>[0, 999999999]\<close> that
    lies \<open>int64(x)\<close> milliseconds from January 1, 1970 UTC. When the truncation of
    \<open>x\<close> fits into 64 bits, \<open>int64(x)\<close> is that truncation. The time stored is the
    zero time exactly when \<open>int64(x)\<close> is \<open>-62135596800000\<close>.
  \<^item> A JSON string that \<open>time.Parse\<close> accepts for the layout \<open>2006-01-02\<close> is decoded
    without error to the time \<open>time.Parse\<close> returns, and every date of the calendar
    written as \<open>YYYY-MM-DD\<close> is accepted. The time stored is the zero time exactly
    when the string is \<open>0001-01-01\<close>.
  \<^item> JSON \<open>null\<close> is decoded to the zero value \<open>time.Time{}\<close>.
  So the claim as stated, a non-zero timestamp for every such number and string, fails
  at the number \<open>-62135596800000\<close> and at the string \<open>0001-01-01\<close>: both denote
  January 1 of year 1, 00:00:00 UTC, the zero time of Go.
\<close>

theorem UnmarshalJSON_timestamps:
  "(json_Unmarshal data = Inr (JNumber x) \<longrightarrow>
      UnmarshalJSON json_Unmarshal out_of_range tv data
        = (None, UnixMilli (int64_of_float64 out_of_range x))
      \<and> unix_milli (UnixMilli (int64_of_float64 out_of_range x))
          = sint (int64_of_float64 out_of_range x)
      \<and> 0 \<le> nsec (UnixMilli (int64_of_float64 out_of_range x))
      \<and> nsec (UnixMilli (int64_of_float64 out_of_range x)) < 1000000000
      \<and> (IsZero (UnixMilli (int64_of_float64 out_of_range x))
           \<longleftrightarrow> sint (int64_of_float64 out_of_range x) = - 62135596800000)
      \<and> (- (2 ^ 63) \<le> trunc_float64 x \<and> trunc_float64 x < 2 ^ 63 \<longrightarrow>
           sint (int64_of_float64 out_of_range x) = trunc_float64 x))
   \<and> (json_Unmarshal data = Inr (JString s) \<and> Parse_date s = Inr t \<longrightarrow>
      UnmarshalJSON json_Unmarshal out_of_range tv data = (None, t)
      \<and> (IsZero t \<longleftrightarrow> s = ''0001-01-01''))
   \<and> (valid_date y m d \<longrightarrow> Parse_date (format_date y m d) = Inr (Date y m d))
   \<and> (json_Unmarshal data = Inr JNull \<longrightarrow>
      UnmarshalJSON json_Unmarshal out_of_range tv data = (None, zero_Time))"
proof (intro conjI impI)
  assume "json_Unmarshal data = Inr (JNumber x)"
  then show "UnmarshalJSON json_Unmarshal out_of_range tv data
      = (None, UnixMilli (int64_of_float64 out_of_range x))"
    by (simp add: UnmarshalJSON_def)
next
  from UnixMilli_instant [of "int64_of_float64 out_of_range x"]
  show "unix_milli (UnixMilli (int64_of_float64 out_of_range x))
      = sint (int64_of_float64 out_of_range x)"
    and "0 \<le> nsec (UnixMilli (int64_of_float64 out_of_range x))"
    and "nsec (UnixMilli (int64_of_float64 out_of_range x)) < 1000000000"
    by simp_all
next
  show "IsZero (UnixMilli (int64_of_float64 out_of_range x))
      \<longleftrightarrow> sint (int64_of_float64 out_of_range x) = - 62135596800000"
    by (rule UnixMilli_IsZero)
next
  assume "- (2 ^ 63) \<le> trunc_float64 x \<and> trunc_float64 x < 2 ^ 63"
  then show "sint (int64_of_float64 out_of_range x) = trunc_float64 x"
    by (simp add: int64_of_float64_in_range)
next
  assume a: "json_Unmarshal data = Inr (JString s) \<and> Parse_date s = Inr t"
  then show "UnmarshalJSON json_Unmarshal out_of_range tv data = (None, t)"
    by (simp add: UnmarshalJSON_def)
  from a show "IsZero t \<longleftrightarrow> s = ''0001-01-01''"
    by (simp add: Parse_date_IsZero)
next
  assume "valid_date y m d"
  then show "Parse_date (format_date y m d) = Inr (Date y m d)"
    by (rule Parse_date_format_date)
next
  assume "json_Unmarshal data = Inr JNull"
  then show "UnmarshalJSON json_Unmarshal out_of_range tv data = (None, zero_Time)"
    by (simp add: UnmarshalJSON_def)
qed

theorem UnmarshalJSON_timestamps_witness:
  "example_Unmarshal ''1700000000000'' = Inr (JNumber 1700000000000)
   \<and> trunc_float64 1700000000000 = 1700000000000
   \<and> UnmarshalJSON example_Unmarshal (\<lambda>x. 0) example_Time ''1700000000000''
       = (None, \<lparr> sec = 63835596800, nsec = 0, loc = Local \<rparr>)
   \<and> unix_milli \<lparr> sec = 63835596800, nsec = 0, loc = Local \<rparr> = 1700000000000
   \<and> \<not> IsZero \<lparr> sec = 63835596800, nsec = 0, loc = Local \<rparr>
   \<and> example_Unmarshal (CHR 0x22 # ''2024-02-29'' @ [CHR 0x22]) = Inr (JString ''2024-02-29'')
   \<and> valid_date 2024 2 29 \<and> format_date 2024 2 29 = ''2024-02-29''
   \<and> Parse_date ''2024-02-29'' = Inr \<lparr> sec = 63844761600, nsec = 0, loc = UTC \<rparr>
   \<and> UnmarshalJSON example_Unmarshal (\<lambda>x. 0) example_Time (CHR 0x22 # ''2024-02-29'' @ [CHR 0x22])
       = (None, \<lparr> sec = 63844761600, nsec = 0, loc = UTC \<rparr>)
   \<and> \<not> IsZero \<lparr> sec = 63844761600, nsec = 0, loc = UTC \<rparr>
   \<and> example_Unmarshal ''null'' = Inr JNull
   \<and> UnmarshalJSON example_Unmarshal (\<lambda>x. 0) example_Time ''null'' = (None, zero_Time)"
proof -
  have number: "example_Unmarshal ''1700000000000'' = Inr (JNumber 1700000000000)"
    by (simp add: example_Unmarshal_def)
  have null: "example_Unmarshal ''null'' = Inr JNull"
    by (simp add: example_Unmarshal_def)
  have string: "example_Unmarshal (CHR 0x22 # ''2024-02-29'' @ [CHR 0x22])
      = Inr (JString ''2024-02-29'')"
    by (rule example_Unmarshal_string)
  have tr: "trunc_float64 1700000000000 = 1700000000000"
    by (simp add: trunc_float64_def)
  have conv: "int64_of_float64 (\<lambda>x. 0) 1700000000000 = 1700000000000"
    by (simp add: int64_of_float64_def tr)
  have t1: "UnixMilli 1700000000000 = \<lparr> sec = 63835596800, nsec = 0, loc = Local \<rparr>"
    by (simp add: UnixMilli_nonneg unixToInternal_def)
  have fmt: "format_date 2024 2 29 = ''2024-02-29''"
    by (simp add: format_date_def digit_char_def char_of_def)
  have valid: "valid_date 2024 2 29"
    by (simp add: valid_date_def daysIn_def isLeap_def)
  have t2: "Date 2024 2 29 = \<lparr> sec = 63844761600, nsec = 0, loc = UTC \<rparr>"
    by (simp add: Date_def daysSinceYear1_def daysBefore_def isLeap_def)
  note n = UnmarshalJSON_timestamps [where json_Unmarshal = example_Unmarshal
      and data = "''1700000000000''" and x = 1700000000000 and out_of_range = "\<lambda>x. 0"
      and tv = example_Time and y = 2024 and m = 2 and d = 29]
  from n valid have parse: "Parse_date ''2024-02-29'' = Inr \<lparr> sec = 63844761600, nsec = 0, loc = UTC \<rparr>"
    by (simp only: fmt t2 simp_thms)
  from n number have r1: "UnmarshalJSON example_Unmarshal (\<lambda>x. 0) example_Time ''1700000000000''
       = (None, \<lparr> sec = 63835596800, nsec = 0, loc = Local \<rparr>)"
    and u1: "unix_milli \<lparr> sec = 63835596800, nsec = 0, loc = Local \<rparr> = 1700000000000"
    and z1: "\<not> IsZero \<lparr> sec = 63835596800, nsec = 0, loc = Local \<rparr>"
    by (simp_all add: conv t1)
  note st = UnmarshalJSON_timestamps [where json_Unmarshal = example_Unmarshal
      and data = "CHR 0x22 # ''2024-02-29'' @ [CHR 0x22]" and s = "''2024-02-29''"
      and t = "\<lparr> sec = 63844761600, nsec = 0, loc = UTC \<rparr>"
      and out_of_range = "\<lambda>x. 0" and tv = example_Time]
  from st string parse
  have r2: "UnmarshalJSON example_Unmarshal (\<lambda>x. 0) example_Time
       (CHR 0x22 # ''2024-02-29'' @ [CHR 0x22])
       = (None, \<lparr> sec = 63844761600, nsec = 0, loc = UTC \<rparr>)"
    and z2: "\<not> IsZero \<lparr> sec = 63844761600, nsec = 0, loc = UTC \<rparr>"
    by blast+
  from UnmarshalJSON_timestamps [where json_Unmarshal = example_Unmarshal
      and data = "''null''" and out_of_range = "\<lambda>x. 0" and tv = example_Time] null
  have r3: "UnmarshalJSON example_Unmarshal (\<lambda>x. 0) example_Time ''null'' = (None, zero_Time)"
    by blast
  from number tr r1 u1 z1 string valid fmt parse r2 z2 null r3 show ?thesis
    by (intro conjI)
qed

theorem UnmarshalJSON_zero_counterexample:
  "example_Unmarshal (CHR 0x22 # ''0001-01-01'' @ [CHR 0x22]) = Inr (JString ''0001-01-01'')
   \<and> UnmarshalJSON example_Unmarshal (\<lambda>x. 0) example_Time (CHR 0x22 # ''0001-01-01'' @ [CHR 0x22])
       = (None, zero_Time)
   \<and> IsZero zero_Time
   \<and> example_Unmarshal ''-62135596800000'' = Inr (JNumber (- 62135596800000))
   \<and> UnmarshalJSON example_Unmarshal (\<lambda>x. 0) example_Time ''-62135596800000''
       = (None, \<lparr> sec = 0, nsec = 0, loc = Local \<rparr>)
   \<and> IsZero \<lparr> sec = 0, nsec = 0, loc = Local \<rparr>"
proof -
  have str: "example_Unmarshal (CHR 0x22 # ''0001-01-01'' @ [CHR 0x22]) = Inr (JString ''0001-01-01'')"
    by (rule example_Unmarshal_string)
  have string: "UnmarshalJSON example_Unmarshal (\<lambda>x. 0) example_Time
      (CHR 0x22 # ''0001-01-01'' @ [CHR 0x22]) = (None, zero_Time)"
    unfolding UnmarshalJSON_def str by (simp add: Parse_date_0001_01_01)
  have number: "example_Unmarshal ''-62135596800000'' = Inr (JNumber (- 62135596800000))"
    by (simp add: example_Unmarshal_def)
  have conv: "int64_of_float64 (\<lambda>x. 0) (- 62135596800000) = - 62135596800000"
    by (simp add: int64_of_float64_def trunc_float64_def)
  have "UnixMilli (- 62135596800000) = \<lparr> sec = 0, nsec = 0, loc = Local \<rparr>"
    by (simp add: UnixMilli_negative_whole unixToInternal_def)
  with conv number have ms: "UnmarshalJSON example_Unmarshal (\<lambda>x. 0) example_Time ''-62135596800000''
      = (None, \<lparr> sec = 0, nsec = 0, loc = Local \<rparr>)"
    by (simp add: UnmarshalJSON_def)
  have z: "IsZero zero_Time" "IsZero \<lparr> sec = 0, nsec = 0, loc = Local \<rparr>"
    by (simp_all add: IsZero_def zero_Time_def)
  from str string z(1) number ms z(2) show ?thesis
    by (intro conjI)
qed

subsection \<open>Claim C8: what the decoder rejects\<close>

text \<open>
  Claim C8. Let \<open>json.Unmarshal\<close> give the value \<open>v\<close> for the data.
  \<^item> If \<open>v\<close> is not a number, a string or \<open>null\<close> (so a boolean, an array or an
    object), the decoder returns the invalid-time-value-type error for \<open>v\<close>.
  \<^item> If \<open>v\<close> is a string that does not have the shape of the layout \<open>YYYY-MM-DD\<close>,
    the decoder returns the parse error of \<open>time.Parse\<close>; and so it does for every
    string \<open>time.Parse\<close> rejects (a string of the right shape that is no date of the
    calendar, such as \<open>2023-02-29\<close>, is one).
  In each case the value the receiver points to is left as it was: no timestamp is
  produced.
\<close>

theorem UnmarshalJSON_rejects:
  assumes "json_Unmarshal data = Inr v"
  shows "(v \<noteq> JNull \<and> (\<forall>x. v \<noteq> JNumber x) \<and> (\<forall>s. v \<noteq> JString s) \<longrightarrow>
            UnmarshalJSON json_Unmarshal out_of_range tv data = (Some (InvalidTimeValueType v), tv))
         \<and> (\<forall>s. v = JString s \<and> \<not> layout_shape s \<longrightarrow>
            UnmarshalJSON json_Unmarshal out_of_range tv data = (Some (ParseError s), tv))
         \<and> (\<forall>s e. v = JString s \<and> Parse_date s = Inl e \<longrightarrow>
            UnmarshalJSON json_Unmarshal out_of_range tv data = (Some (ParseError s), tv))"
proof (intro conjI allI impI)
  assume "v \<noteq> JNull \<and> (\<forall>x. v \<noteq> JNumber x) \<and> (\<forall>s. v \<noteq> JString s)"
  with assms show "UnmarshalJSON json_Unmarshal out_of_range tv data
      = (Some (InvalidTimeValueType v), tv)"
    by (cases v) (simp_all add: UnmarshalJSON_def)
next
  fix s
  assume a: "v = JString s \<and> \<not> layout_shape s"
  then have "\<exists>e. Parse_date s = Inl e"
    using Parse_date_shape [of s] by (cases "Parse_date s") auto
  then have "Parse_date s = Inl (ParseError s)"
    using Parse_date_error [of s] by auto
  with assms a show "UnmarshalJSON json_Unmarshal out_of_range tv data = (Some (ParseError s), tv)"
    by (simp add: UnmarshalJSON_def)
next
  fix s e
  assume a: "v = JString s \<and> Parse_date s = Inl e"
  with Parse_date_error [of s e] have "Parse_date s = Inl (ParseError s)"
    by simp
  with assms a show "UnmarshalJSON json_Unmarshal out_of_range tv data = (Some (ParseError s), tv)"
    by (simp add: UnmarshalJSON_def)
qed

theorem UnmarshalJSON_rejects_witness:
  "example_Unmarshal ''true'' = Inr (JBool True)
   \<and> UnmarshalJSON example_Unmarshal (\<lambda>x. 0) example_Time ''true''
       = (Some (InvalidTimeValueType (JBool True)), example_Time)
   \<and> example_Unmarshal ''[]'' = Inr (JArray [])
   \<and> UnmarshalJSON example_Unmarshal (\<lambda>x. 0) example_Time ''[]''
       = (Some (InvalidTimeValueType (JArray [])), example_Time)
   \<and> example_Unmarshal ''{}'' = Inr (JObject [])
   \<and> UnmarshalJSON example_Unmarshal (\<lambda>x. 0) example_Time ''{}''
       = (Some (InvalidTimeValueType (JObject [])), example_Time)
   \<and> example_Unmarshal (CHR 0x22 # ''2024-1-05'' @ [CHR 0x22]) = Inr (JString ''2024-1-05'')
   \<and> \<not> layout_shape ''2024-1-05''
   \<and> UnmarshalJSON example_Unmarshal (\<lambda>x. 0) example_Time (CHR 0x22 # ''2024-1-05'' @ [CHR 0x22])
       = (Some (ParseError ''2024-1-05''), example_Time)
   \<and> example_Unmarshal (CHR 0x22 # ''2023-02-29'' @ [CHR 0x22]) = Inr (JString ''2023-02-29'')
   \<and> Parse_date ''2023-02-29'' = Inl (ParseError ''2023-02-29'')
   \<and> UnmarshalJSON example_Unmarshal (\<lambda>x. 0) example_Time (CHR 0x22 # ''2023-02-29'' @ [CHR 0x22])
       = (Some (ParseError ''2023-02-29''), example_Time)"
proof -
  have b: "example_Unmarshal ''true'' = Inr (JBool True)"
    and a: "example_Unmarshal ''[]'' = Inr (JArray [])"
    and obj: "example_Unmarshal ''{}'' = Inr (JObject [])"
    by (simp_all add: example_Unmarshal_def)
  have s1: "example_Unmarshal (CHR 0x22 # ''2024-1-05'' @ [CHR 0x22]) = Inr (JString ''2024-1-05'')"
    and s2: "example_Unmarshal (CHR 0x22 # ''2023-02-29'' @ [CHR 0x22]) = Inr (JString ''2023-02-29'')"
    by (rule example_Unmarshal_string)+
  have shape: "\<not> layout_shape ''2024-1-05''"
    by (simp add: layout_shape_def)
  have feb: "Parse_date ''2023-02-29'' = Inl (ParseError ''2023-02-29'')"
    by (simp add: Parse_date_def isDigit_def isdigit_def digit_value_def skip_def getnum_def
        daysIn_def isLeap_def daysBefore_def)
  note t = UnmarshalJSON_rejects [where json_Unmarshal = example_Unmarshal
      and out_of_range = "\<lambda>x. 0" and tv = example_Time]
  from t [OF b] have r1: "UnmarshalJSON example_Unmarshal (\<lambda>x. 0) example_Time ''true''
       = (Some (InvalidTimeValueType (JBool True)), example_Time)"
    by simp
  from t [OF a] have r2: "UnmarshalJSON example_Unmarshal (\<lambda>x. 0) example_Time ''[]''
       = (Some (InvalidTimeValueType (JArray [])), example_Time)"
    by simp
  from t [OF obj] have r3: "UnmarshalJSON example_Unmarshal (\<lambda>x. 0) example_Time ''{}''
       = (Some (InvalidTimeValueType (JObject [])), example_Time)"
    by simp
  from t [OF s1] shape have r4: "UnmarshalJSON example_Unmarshal (\<lambda>x. 0) example_Time
       (CHR 0x22 # ''2024-1-05'' @ [CHR 0x22]) = (Some (ParseError ''2024-1-05''), example_Time)"
    by blast
  from t [OF s2] feb have r5: "UnmarshalJSON example_Unmarshal (\<lambda>x. 0) example_Time
       (CHR 0x22 # ''2023-02-29'' @ [CHR 0x22]) = (Some (ParseError ''2023-02-29''), example_Time)"
    by blast
  from b a obj s1 s2 shape feb r1 r2 r3 r4 r5 show ?thesis
    by (intro conjI)
qed

end
